theory Spec2Isabelle
  imports Complex_Main "HOL-Library.Word"
begin

unbundle bit_operations_syntax

section \<open>Numbers and vectors\<close>

text \<open>
  The program is a single TypeScript module, \<^verbatim>\<open>src/App.tsx\<close>. Its numbers are
  JavaScript numbers; they are modelled here as mathematical reals, so \<^verbatim>\<open>Math.PI\<close> is
  \<^term>\<open>pi\<close>, \<^verbatim>\<open>Math.sin\<close> is \<^term>\<open>sin\<close>, \<^verbatim>\<open>Math.cbrt\<close> is \<^term>\<open>root 3\<close> and
  \<^verbatim>\<open>Math.pow(b, 3.0)\<close> is \<open>b ^ 3\<close>. Rounding of IEEE doubles is not modelled.
  Counters that only ever hold small non-negative integers are naturals.

  \<^verbatim>\<open>THREE.Vector3\<close> is a record of three reals. The fields are called \<open>vx\<close>, \<open>vy\<close>,
  \<open>vz\<close> (for \<^verbatim>\<open>x\<close>, \<^verbatim>\<open>y\<close>, \<^verbatim>\<open>z\<close>) so that \<open>x\<close>, \<open>y\<close> and \<open>z\<close> stay usable as variables.
  The vector operations below are the ones of the three.js library that the module calls,
  each with the arithmetic three.js performs.
\<close>

record Vector3 =
  vx :: real
  vy :: real
  vz :: real

definition vec :: "real \<Rightarrow> real \<Rightarrow> real \<Rightarrow> Vector3" where
  "vec a b c = \<lparr>vx = a, vy = b, vz = c\<rparr>"

definition multiplyScalar :: "Vector3 \<Rightarrow> real \<Rightarrow> Vector3" where
  "multiplyScalar v s = vec (vx v * s) (vy v * s) (vz v * s)"

definition add :: "Vector3 \<Rightarrow> Vector3 \<Rightarrow> Vector3" where
  "add v w = vec (vx v + vx w) (vy v + vy w) (vz v + vz w)"

definition subVectors :: "Vector3 \<Rightarrow> Vector3 \<Rightarrow> Vector3" where
  "subVectors a b = vec (vx a - vx b) (vy a - vy b) (vz a - vz b)"

definition addScaledVector :: "Vector3 \<Rightarrow> Vector3 \<Rightarrow> real \<Rightarrow> Vector3" where
  "addScaledVector v w s = vec (vx v + vx w * s) (vy v + vy w * s) (vz v + vz w * s)"

definition vlength :: "Vector3 \<Rightarrow> real" where
  "vlength v = sqrt (vx v * vx v + vy v * vy v + vz v * vz v)"

text \<open>\<^verbatim>\<open>normalize()\<close> divides by \<^verbatim>\<open>length() || 1\<close>: a zero vector stays zero.\<close>

definition normalize :: "Vector3 \<Rightarrow> Vector3" where
  "normalize v = multiplyScalar v (1 / (if vlength v = 0 then 1 else vlength v))"

definition lerpVectors :: "Vector3 \<Rightarrow> Vector3 \<Rightarrow> real \<Rightarrow> Vector3" where
  "lerpVectors v1 v2 alpha =
     vec (vx v1 + (vx v2 - vx v1) * alpha)
         (vy v1 + (vy v2 - vy v1) * alpha)
         (vz v1 + (vz v2 - vz v1) * alpha)"

definition distanceTo :: "Vector3 \<Rightarrow> Vector3 \<Rightarrow> real" where
  "distanceTo v w =
     sqrt ((vx v - vx w) * (vx v - vx w) + (vy v - vy w) * (vy v - vy w)
           + (vz v - vz w) * (vz v - vz w))"

section \<open>Constants\<close>

definition SCATTER_CENTER_Y :: real where
  "SCATTER_CENTER_Y = 0.2"

definition CORE_RATIO :: real where
  "CORE_RATIO = 0.8"

definition CORE_RADIUS :: real where
  "CORE_RADIUS = 3.2"

definition OUTER_RADIUS :: real where
  "OUTER_RADIUS = 16.0"

section \<open>The easing function\<close>

text \<open>
  The cubic ease-in-out is written twice in the module: inline at the head of
  \<^verbatim>\<open>MorphingInstances.update\<close> (\<open>eased\<close>) and as the GLSL function
  \<^verbatim>\<open>easeInOutCubic\<close> of the body vertex shader.
\<close>

definition eased :: "real \<Rightarrow> real" where
  "eased morphVal =
     (if morphVal < 0.5 then 4.0 * morphVal * morphVal * morphVal
      else 1.0 - (- 2.0 * morphVal + 2.0) ^ 3 / 2.0)"

definition easeInOutCubic :: "real \<Rightarrow> real" where
  "easeInOutCubic x =
     (if x < 0.5 then 4.0 * x * x * x else 1.0 - (- 2.0 * x + 2.0) ^ 3 / 2.0)"

section \<open>The scatter position generator\<close>

text \<open>
  \<^verbatim>\<open>getIsotropicScatterPos(isCoreOverride?)\<close> draws from \<^verbatim>\<open>Math.random()\<close>. The random
  source is the argument \<open>random\<close>: \<open>random k\<close> is the value of the \<open>k\<close>-th call made
  during this invocation (counting from 0). Without an override the first call decides
  \<open>isCore\<close>, and every later call moves on by one; \<open>drawBase\<close> is the number of calls made
  before \<open>u\<close> is drawn. The function returns \<open>(pos, isHalo)\<close> with \<open>isHalo = \<not> isCore\<close>.
\<close>

definition drawBase :: "bool option \<Rightarrow> nat" where
  "drawBase isCoreOverride = (case isCoreOverride of Some b \<Rightarrow> 0 | None \<Rightarrow> 1)"

definition getIsotropicScatterPos :: "bool option \<Rightarrow> (nat \<Rightarrow> real) \<Rightarrow> Vector3 \<times> bool" where
  "getIsotropicScatterPos isCoreOverride random =
     (let isCore = (case isCoreOverride of Some b \<Rightarrow> b | None \<Rightarrow> random 0 < CORE_RATIO);
          k = drawBase isCoreOverride;
          center = vec 0 SCATTER_CENTER_Y 0;
          u = random k;
          v = random (k + 1);
          theta = 2 * pi * u;
          phi = arccos (2 * v - 1);
          dir = vec (sin phi * cos theta) (sin phi * sin theta) (cos phi)
      in if isCore then
           let r = CORE_RADIUS * root 3 (random (k + 2))
           in (add (multiplyScalar dir r) center, \<not> isCore)
         else
           let R_min = CORE_RADIUS * 1.05;
               R_max = OUTER_RADIUS;
               r = root 3 (random (k + 2) * (R_max ^ 3 - R_min ^ 3) + R_min ^ 3);
               pos = add (multiplyScalar dir r) center
           in if random (k + 3) < 0.3 then
                let seed = random (k + 4) * 100;
                    pos1 = pos\<lparr>vx := vx pos + 0.15 * sin (vy pos * 1.7 + seed)\<rparr>;
                    pos2 = pos1\<lparr>vz := vz pos1 + 0.15 * cos (vx pos1 * 1.7 + seed)\<rparr>
                in (pos2, \<not> isCore)
              else (pos, \<not> isCore))"

text \<open>
  The formation center \<open>(0, SCATTER_CENTER_Y, 0)\<close>, which the generator, the instance
  engine and the shader each construct locally.
\<close>

definition formationCenter :: Vector3 where
  "formationCenter = vec 0 SCATTER_CENTER_Y 0"

text \<open>
  Names for the intermediate values of the halo branch: the unit direction, the shell
  radius, the point before the jitter and the two jitter offsets. The lemmas
  \<open>scatter_core_case\<close>, \<open>scatter_plain_halo_case\<close> and \<open>scatter_jitter_halo_case\<close> show
  that \<open>getIsotropicScatterPos\<close> returns exactly these.
\<close>

definition scatterDir :: "bool option \<Rightarrow> (nat \<Rightarrow> real) \<Rightarrow> Vector3" where
  "scatterDir ov random =
     (let theta = 2 * pi * random (drawBase ov); phi = arccos (2 * random (drawBase ov + 1) - 1)
      in vec (sin phi * cos theta) (sin phi * sin theta) (cos phi))"

definition shellRadius :: "real \<Rightarrow> real" where
  "shellRadius w =
     root 3 (w * (OUTER_RADIUS ^ 3 - (CORE_RADIUS * 1.05) ^ 3) + (CORE_RADIUS * 1.05) ^ 3)"

definition shellPoint :: "bool option \<Rightarrow> (nat \<Rightarrow> real) \<Rightarrow> Vector3" where
  "shellPoint ov random =
     add (multiplyScalar (scatterDir ov random) (shellRadius (random (drawBase ov + 2))))
         formationCenter"

definition jitterX :: "bool option \<Rightarrow> (nat \<Rightarrow> real) \<Rightarrow> real" where
  "jitterX ov random =
     0.15 * sin (vy (shellPoint ov random) * 1.7 + random (drawBase ov + 4) * 100)"

definition jitterZ :: "bool option \<Rightarrow> (nat \<Rightarrow> real) \<Rightarrow> real" where
  "jitterZ ov random =
     0.15 * cos ((vx (shellPoint ov random) + jitterX ov random) * 1.7
                 + random (drawBase ov + 4) * 100)"

text \<open>
  A sequence of draws for a halo point (\<open>u = 1/4\<close>, \<open>v = 1/2\<close>, radius draw \<open>0.99999\<close>,
  jitter coin \<open>0\<close>, seed draw \<open>0\<close>).
\<close>

definition scatterDrawsOutside :: "nat \<Rightarrow> real" where
  "scatterDrawsOutside k =
     (if k = 0 then 1 / 4 else if k = 1 then 1 / 2 else if k = 2 then 99999 / 100000 else 0)"

text \<open>The sequence in which every draw is \<open>1/2\<close>.\<close>

definition scatterDrawsHalf :: "nat \<Rightarrow> real" where
  "scatterDrawsHalf k = 1 / 2"

section \<open>The gesture control state machine\<close>

text \<open>
  \<^verbatim>\<open>predictWebcam\<close> runs once per video frame. It reads and writes four mutable
  references: \<^verbatim>\<open>gestureState\<close>, \<^verbatim>\<open>dragRef\<close> (of which it touches \<^verbatim>\<open>yawTarget\<close> and
  \<^verbatim>\<open>pitchTarget\<close> only), \<^verbatim>\<open>focusStateRef\<close> and \<^verbatim>\<open>handTrackingRef\<close>. They are the
  fields of \<open>AppState\<close>, passed in and returned. The React setters it calls
  (\<^verbatim>\<open>setIsHandRotating\<close>, \<^verbatim>\<open>setDebugGesture\<close>, \<^verbatim>\<open>setTargetMorph\<close>) are returned as the
  list of calls made during the frame, in order.

  A \<open>Frame\<close> is one invocation that gets as far as the detector (video, canvas,
  landmarker and 2D context exist, the video has a width): \<open>now\<close> is
  \<^verbatim>\<open>performance.now()\<close>, and \<open>hand\<close> is the detector's answer: \<open>None\<close> when
  \<^verbatim>\<open>results.landmarks\<close> is empty, otherwise the raw class \<^verbatim>\<open>classifyGesture\<close> returns for
  the first hand and the position of its landmark 0, the wrist.
\<close>

datatype GestureType = FIST | OPEN_PALM | V_SIGN | INDEX_UP | UNKNOWN

record GestureState =
  lastRawGesture :: GestureType
  debounceCount :: nat
  currentStableGesture :: GestureType
  lastActionTime :: real

record DragState =
  yawTarget :: real
  pitchTarget :: real

record FocusState =
  active :: bool
  focusId :: "int option"

record AppState =
  gesture :: GestureState
  drag :: DragState
  focusState :: FocusState
  handTracking :: "(real \<times> real) option"

record Hand =
  rawGesture :: GestureType
  wristX :: real
  wristY :: real

record Frame =
  now :: real
  hand :: "Hand option"

datatype Call = SetIsHandRotating bool | SetDebugGesture GestureType | SetTargetMorph real

text \<open>The initial values of the references, as \<^verbatim>\<open>useRef\<close> creates them.\<close>

definition initialAppState :: AppState where
  "initialAppState =
     \<lparr>gesture = \<lparr>lastRawGesture = UNKNOWN, debounceCount = 0,
                  currentStableGesture = UNKNOWN, lastActionTime = 0\<rparr>,
      drag = \<lparr>yawTarget = 0, pitchTarget = 0\<rparr>,
      focusState = \<lparr>active = False, focusId = None\<rparr>,
      handTracking = None\<rparr>"

text \<open>
  The wrist block: with a remembered wrist position, each axis delta below 0.003 in
  absolute value becomes 0; a non-zero delta moves the yaw and pitch targets, and only the
  pitch target is clamped.
\<close>

definition wristStep ::
  "(real \<times> real) option \<Rightarrow> DragState \<Rightarrow> Hand \<Rightarrow> DragState \<times> Call list" where
  "wristStep tracking d h =
     (case tracking of
        None \<Rightarrow> (d, [])
      | Some (px, py) \<Rightarrow>
          let dx = (if \<bar>wristX h - px\<bar> < 0.003 then 0 else wristX h - px);
              dy = (if \<bar>wristY h - py\<bar> < 0.003 then 0 else wristY h - py)
          in if dx \<noteq> 0 \<or> dy \<noteq> 0 then
               let d1 = d\<lparr>yawTarget := yawTarget d + dx * pi * 1.25\<rparr>;
                   d2 = d1\<lparr>pitchTarget := pitchTarget d1 + dy * pi * 0.6\<rparr>;
                   d3 = d2\<lparr>pitchTarget := max (- 0.6) (min 0.6 (pitchTarget d2))\<rparr>
               in (d3, [SetIsHandRotating True])
             else (d, [SetIsHandRotating False]))"

text \<open>The debounce line: count a repeat of a known class, otherwise start over.\<close>

definition debounceStep :: "GestureState \<Rightarrow> GestureType \<Rightarrow> GestureState" where
  "debounceStep st raw =
     (if raw = lastRawGesture st \<and> raw \<noteq> UNKNOWN
      then st\<lparr>debounceCount := debounceCount st + 1\<rparr>
      else st\<lparr>debounceCount := 0, lastRawGesture := raw\<rparr>)"

text \<open>The commit block, entered when the counter is at least 8.\<close>

definition commitStep ::
  "GestureState \<Rightarrow> FocusState \<Rightarrow> GestureType \<Rightarrow> real
     \<Rightarrow> GestureState \<times> FocusState \<times> Call list" where
  "commitStep st fs raw t =
     (if debounceCount st \<ge> 8 then
        let st1 = st\<lparr>currentStableGesture := raw\<rparr>;
            fs1 = fs\<lparr>active := (currentStableGesture st1 = INDEX_UP)\<rparr>
        in if t - lastActionTime st1 > 800 then
             if raw = FIST then
               (st1\<lparr>lastActionTime := t\<rparr>, fs1, [SetDebugGesture raw, SetTargetMorph 0])
             else if raw = OPEN_PALM then
               (st1\<lparr>lastActionTime := t\<rparr>, fs1, [SetDebugGesture raw, SetTargetMorph 1])
             else (st1, fs1, [SetDebugGesture raw])
           else (st1, fs1, [SetDebugGesture raw])
      else (st, fs, []))"

definition predictWebcam :: "AppState \<Rightarrow> Frame \<Rightarrow> AppState \<times> Call list" where
  "predictWebcam s f =
     (case hand f of
        Some h \<Rightarrow>
          let (d1, calls1) = wristStep (handTracking s) (drag s) h;
              st1 = debounceStep (gesture s) (rawGesture h);
              (st2, fs2, calls2) = commitStep st1 (focusState s) (rawGesture h) (now f)
          in (s\<lparr>gesture := st2, drag := d1, focusState := fs2,
                handTracking := Some (wristX h, wristY h)\<rparr>,
              calls1 @ calls2)
      | None \<Rightarrow>
          (s\<lparr>handTracking := None, focusState := (focusState s)\<lparr>active := False\<rparr>\<rparr>,
           [SetIsHandRotating False]))"

text \<open>A run of frames: the final state and all calls made, in order.\<close>

fun runFrames :: "AppState \<Rightarrow> Frame list \<Rightarrow> AppState \<times> Call list" where
  "runFrames s [] = (s, [])"
| "runFrames s (f # fs) =
     (let (s1, calls1) = predictWebcam s f; (s2, calls2) = runFrames s1 fs
      in (s2, calls1 @ calls2))"

text \<open>The frame shows a hand whose raw class is \<open>g\<close>.\<close>

definition showsGesture :: "GestureType \<Rightarrow> Frame \<Rightarrow> bool" where
  "showsGesture g f = (case hand f of Some h \<Rightarrow> rawGesture h = g | None \<Rightarrow> False)"

text \<open>A frame at time \<open>t\<close> showing class \<open>g\<close> with the wrist at \<open>(wx, wy)\<close>.\<close>

definition handFrame :: "real \<Rightarrow> GestureType \<Rightarrow> real \<Rightarrow> real \<Rightarrow> Frame" where
  "handFrame t g wx wy = \<lparr>now = t, hand = Some \<lparr>rawGesture = g, wristX = wx, wristY = wy\<rparr>\<rparr>"

text \<open>\<open>n\<close> frames, 33 ms apart from 1000 ms on, of a still hand showing a fist.\<close>

definition fistRun :: "nat \<Rightarrow> Frame list" where
  "fistRun n = map (\<lambda>k. handFrame (1000 + 33 * real k) FIST 0.5 0.5) [0..<n]"

text \<open>
  The frame \<open>f\<close>, arriving in state \<open>s\<close>, runs the commit block with class \<open>g\<close>: it repeats
  the remembered raw class, which is not UNKNOWN, and the counter it increments was
  already at 7 or more.
\<close>

definition commitsGesture :: "GestureType \<Rightarrow> AppState \<Rightarrow> Frame \<Rightarrow> bool" where
  "commitsGesture g s f =
     (g \<noteq> UNKNOWN \<and> showsGesture g f \<and> lastRawGesture (gesture s) = g
      \<and> 7 \<le> debounceCount (gesture s))"

text \<open>\<open>n\<close> frames, 33 ms apart from \<open>t0\<close> on, of a still hand showing the class \<open>g\<close>.\<close>

definition handRun :: "real \<Rightarrow> GestureType \<Rightarrow> nat \<Rightarrow> Frame list" where
  "handRun t0 g n = map (\<lambda>k. handFrame (t0 + 33 * real k) g 0.5 0.5) [0..<n]"

text \<open>
  An open palm held for 9 frames from 1000 ms on (its action fires at 1264 ms), then a
  fist for 8 frames from 1297 ms on: the state in which the next fist frame commits.
\<close>

definition palmThenFistState :: AppState where
  "palmThenFistState =
     fst (runFrames initialAppState (handRun 1000 OPEN_PALM 9 @ handRun 1297 FIST 8))"

section \<open>The instance morph engine\<close>

text \<open>
  A \<^verbatim>\<open>MorphingInstances\<close> object holds three parallel arrays and the instance count of
  its mesh (\<^verbatim>\<open>this.mesh.count\<close>, here \<open>meshCount\<close>). \<open>updatePosition\<close> is the body of the
  loop of \<^verbatim>\<open>update(morphVal, time)\<close> for the index \<open>i\<close>: the value of
  \<^verbatim>\<open>this.dummy.position\<close> when the matrix is written. \<open>update\<close> returns what is written for
  every index: that position and the fixed rotation \<open>(i \<times> 0.1, i \<times> 0.2)\<close>. Reading
  \<^verbatim>\<open>treePositions[i]\<close> or \<^verbatim>\<open>scatterPositions[i]\<close> beyond the array gives \<^verbatim>\<open>undefined\<close>, on
  which \<^verbatim>\<open>lerpVectors\<close> throws: \<open>update\<close> is then \<open>None\<close>. A missing \<^verbatim>\<open>haloFlags[i]\<close> is
  falsy.
\<close>

record MorphingInstances =
  meshCount :: nat
  treePositions :: "Vector3 list"
  scatterPositions :: "Vector3 list"
  haloFlags :: "bool list"

record InstanceTransform =
  instPosition :: Vector3
  rotationX :: real
  rotationY :: real

definition updatePosition ::
  "real \<Rightarrow> real \<Rightarrow> nat \<Rightarrow> Vector3 \<Rightarrow> Vector3 \<Rightarrow> bool \<Rightarrow> Vector3" where
  "updatePosition morphVal time i t s isOuter =
     (let e = eased morphVal;
          center = vec 0 SCATTER_CENTER_Y 0;
          p = lerpVectors t s e
      in if morphVal > 0.01 then
           if isOuter then
             let noiseX = sin (time * 0.4 + real i * 0.1);
                 noiseY = cos (time * 0.3 + real i * 0.2);
                 p1 = p\<lparr>vx := vx p + noiseX * 0.02 * e\<rparr>;
                 p2 = p1\<lparr>vy := vy p1 + noiseY * 0.02 * e\<rparr>
             in p2
           else
             let dir = normalize (subVectors s center);
                 noise = sin (time * 2.0 + real i * 0.1)
             in addScaledVector p dir (0.05 * e * noise)
         else p)"

definition update :: "MorphingInstances \<Rightarrow> real \<Rightarrow> real \<Rightarrow> InstanceTransform list option" where
  "update m morphVal time =
     (if meshCount m \<le> length (treePositions m) \<and> meshCount m \<le> length (scatterPositions m)
      then Some (map (\<lambda>i.
             \<lparr>instPosition =
                updatePosition morphVal time i (treePositions m ! i) (scatterPositions m ! i)
                  (i < length (haloFlags m) \<and> haloFlags m ! i),
              rotationX = real i * 0.1,
              rotationY = real i * 0.2\<rparr>) [0..<meshCount m])
      else None)"

section \<open>The body vertex shader\<close>

text \<open>
  The position part of \<^verbatim>\<open>main()\<close> of \<^verbatim>\<open>bodyVertexShader\<close>: the value of \<^verbatim>\<open>mixedPos\<close>
  when it is multiplied with the model-view matrix. GLSL's \<^verbatim>\<open>mix(a, b, w)\<close> is
  \<open>a \<times> (1 - w) + b \<times> w\<close>, and \<^verbatim>\<open>normalize(v)\<close> is \<open>v / length(v)\<close>; the shader replaces the
  direction when the length is below 0.001. The halo attribute is a float, 1.0 for a halo
  point and 0.0 for a core point.
\<close>

definition mix :: "Vector3 \<Rightarrow> Vector3 \<Rightarrow> real \<Rightarrow> Vector3" where
  "mix a b w =
     vec (vx a * (1 - w) + vx b * w) (vy a * (1 - w) + vy b * w) (vz a * (1 - w) + vz b * w)"

definition glslNormalize :: "Vector3 \<Rightarrow> Vector3" where
  "glslNormalize v = vec (vx v / vlength v) (vy v / vlength v) (vz v / vlength v)"

definition shaderPosition ::
  "real \<Rightarrow> real \<Rightarrow> Vector3 \<Rightarrow> Vector3 \<Rightarrow> real \<Rightarrow> real \<Rightarrow> Vector3" where
  "shaderPosition uMorph uTime pos aScatterPosition aSeed aHalo =
     (let easedMorph = easeInOutCubic uMorph;
          mixed0 = mix pos aScatterPosition easedMorph;
          mixed1 =
            (if uMorph < 0.99 then
               let breathe = sin (uTime * 1.2 + vy mixed0 * 0.5) * 0.02 * (1.0 - easedMorph)
               in mixed0\<lparr>vx := vx mixed0 + breathe, vz := vz mixed0 + breathe\<rparr>
             else mixed0)
      in if uMorph > 0.01 then
           let center = vec 0.0 SCATTER_CENTER_Y 0.0
           in if aHalo > 0.5 then
                let noiseX = sin (uTime * 0.4 + aSeed * 12.0);
                    noiseY = cos (uTime * 0.3 + aSeed * 25.0);
                    noiseZ = sin (uTime * 0.2 + vx mixed1);
                    drift = multiplyScalar (vec noiseX (noiseY * 0.5) noiseZ) 0.4
                in add mixed1 (multiplyScalar drift easedMorph)
              else
                let dir = (if vlength (subVectors mixed1 center) < 0.001 then vec 0.0 1.0 0.0
                           else glslNormalize (subVectors mixed1 center));
                    pulse = sin (uTime * 1.5 + aSeed * 10.0 + vy mixed1)
                in add mixed1 (multiplyScalar dir (0.05 * pulse * easedMorph))
         else mixed1)"

section \<open>The animation tick\<close>

text \<open>
  The smoothing of the morph value at the head of \<^verbatim>\<open>animate\<close>, and its iteration over
  \<open>n\<close> ticks with a fixed target.
\<close>

definition morphTick :: "real \<Rightarrow> real \<Rightarrow> real" where
  "morphTick target currentMorph =
     (if \<bar>target - currentMorph\<bar> > 0.001 then currentMorph + (target - currentMorph) * 0.05
      else target)"

fun morphAfter :: "nat \<Rightarrow> real \<Rightarrow> real \<Rightarrow> real" where
  "morphAfter 0 target currentMorph = currentMorph"
| "morphAfter (Suc n) target currentMorph = morphAfter n target (morphTick target currentMorph)"

text \<open>The idle offset that \<open>update\<close> adds at full morph, for a halo and for a core point.\<close>

definition idleOffset :: "real \<Rightarrow> nat \<Rightarrow> Vector3 \<Rightarrow> bool \<Rightarrow> Vector3" where
  "idleOffset time i s isOuter =
     (if isOuter
      then vec (sin (time * 0.4 + real i * 0.1) * 0.02) (cos (time * 0.3 + real i * 0.2) * 0.02) 0
      else multiplyScalar (normalize (subVectors s formationCenter))
             (0.05 * sin (time * 2.0 + real i * 0.1)))"

text \<open>A single halo instance, for evaluation.\<close>

definition oneHaloInstance :: MorphingInstances where
  "oneHaloInstance =
     \<lparr>meshCount = 1, treePositions = [vec 0 0 0], scatterPositions = [vec 1 1 1],
      haloFlags = [True]\<rparr>"

section \<open>Photo focus\<close>

text \<open>
  The focus block of \<^verbatim>\<open>animate\<close>. A photo is known here by its \<^verbatim>\<open>idx\<close> and by the world
  position of its mesh (what \<^verbatim>\<open>getWorldPosition\<close> writes into \<^verbatim>\<open>tempVec\<close>); the camera is
  \<^verbatim>\<open>cameraRef.current\<close>, \<open>None\<close> when it is null, otherwise its position. The scan starts
  from \<^verbatim>\<open>bestDist = Infinity\<close> (here \<open>None\<close>) and \<^verbatim>\<open>bestId = -1\<close>.
\<close>

record PhotoData =
  idx :: nat
  worldPos :: Vector3

fun scanPhotos :: "Vector3 \<Rightarrow> PhotoData list \<Rightarrow> real option \<Rightarrow> int \<Rightarrow> real option \<times> int" where
  "scanPhotos camPos [] bestDist bestId = (bestDist, bestId)"
| "scanPhotos camPos (p # ps) bestDist bestId =
     (let d = distanceTo (worldPos p) camPos
      in if (case bestDist of None \<Rightarrow> True | Some b \<Rightarrow> d < b)
         then scanPhotos camPos ps (Some d) (int (idx p))
         else scanPhotos camPos ps bestDist bestId)"

definition focusTick :: "FocusState \<Rightarrow> PhotoData list \<Rightarrow> Vector3 option \<Rightarrow> FocusState" where
  "focusTick fs photos camera =
     (case camera of
        Some camPos \<Rightarrow>
          if active fs \<and> focusId fs = None \<and> length photos > 0 then
            let (bestDist, bestId) = scanPhotos camPos photos None (- 1)
            in if bestId \<noteq> - 1 then fs\<lparr>focusId := Some bestId\<rparr> else fs
          else if \<not> active fs then fs\<lparr>focusId := None\<rparr>
          else fs
      | None \<Rightarrow> if \<not> active fs then fs\<lparr>focusId := None\<rparr> else fs)"

text \<open>
  Later ticks: each with the photos and the camera of that tick, the \<open>active\<close> flag as the
  gesture loop left it.
\<close>

fun focusTicks :: "FocusState \<Rightarrow> (PhotoData list \<times> Vector3 option) list \<Rightarrow> FocusState" where
  "focusTicks fs [] = fs"
| "focusTicks fs ((photos, camera) # rest) = focusTicks (focusTick fs photos camera) rest"

text \<open>Two photo slots and the camera position \<^verbatim>\<open>animate\<close> starts with.\<close>

definition samplePhotos :: "PhotoData list" where
  "samplePhotos = [\<lparr>idx = 0, worldPos = vec 0 1.5 0\<rparr>, \<lparr>idx = 1, worldPos = vec 0 1.5 12\<rparr>]"

definition cameraHome :: Vector3 where
  "cameraHome = vec 0 1.5 22"

section \<open>Selective bloom\<close>

text \<open>
  \<^verbatim>\<open>darken\<close> and \<^verbatim>\<open>restore\<close> are the two callbacks that \<^verbatim>\<open>animate\<close> passes to
  \<^verbatim>\<open>scene.traverse\<close>, around the bloom render. They share the dictionary \<^verbatim>\<open>materials\<close>,
  keyed by the object's uuid. An object of the scene graph is known here by its uuid,
  its \<^verbatim>\<open>isMesh\<close> flag, the mask of its \<^verbatim>\<open>layers\<close> and its material; \<^verbatim>\<open>traverse\<close> visits
  every object of the graph once, and the scene is the list of its objects in the order
  of the visit. \<^verbatim>\<open>layers.test\<close> is three.js's test that two masks share a bit, and
  \<^verbatim>\<open>bloomLayer.set(BLOOM_LAYER)\<close> makes the mask \<open>1 << BLOOM_LAYER\<close>. A material is an
  object or an array of objects, always truthy.

  \<^verbatim>\<open>materials\<close> is a plain JavaScript object, so reading \<^verbatim>\<open>materials[key]\<close> finds the
  entry stored under the key or, when there is none, the member that \<^verbatim>\<open>Object.prototype\<close>
  has under that name; each of these members is truthy. \<open>objectPrototypeKeys\<close> lists their
  names (ECMAScript with its Annex B), and \<open>PrototypeMember k\<close> is the member named \<open>k\<close>:
  not a material, but what \<^verbatim>\<open>restore\<close> assigns when it finds it. The dictionary itself is
  the map of its stored entries. An assignment under the name \<^verbatim>\<open>__proto__\<close> would replace
  the prototype of the dictionary instead of storing an entry; the map records it as an
  entry all the same, which is right for the value read back and not beyond. The uuids
  three.js generates are never among these names, and the theorem on the two traversals
  assumes so.
\<close>

datatype Material =
  DarkMaterial | SingleMaterial nat | MaterialArray "nat list" | PrototypeMember string

record Object3D =
  uuid :: string
  isMesh :: bool
  layersMask :: "32 word"
  material :: Material

definition BLOOM_LAYER :: nat where
  "BLOOM_LAYER = 1"

definition bloomLayerMask :: "32 word" where
  "bloomLayerMask = push_bit BLOOM_LAYER 1"

definition layersTest :: "32 word \<Rightarrow> 32 word \<Rightarrow> bool" where
  "layersTest a b = (a AND b \<noteq> 0)"

definition darken :: "(string \<rightharpoonup> Material) \<Rightarrow> Object3D \<Rightarrow> (string \<rightharpoonup> Material) \<times> Object3D" where
  "darken materials ob =
     (if isMesh ob \<and> \<not> layersTest (layersMask ob) bloomLayerMask
      then (materials(uuid ob \<mapsto> material ob), ob\<lparr>material := DarkMaterial\<rparr>)
      else (materials, ob))"

definition objectPrototypeKeys :: "string list" where
  "objectPrototypeKeys =
     [''constructor'', ''hasOwnProperty'', ''isPrototypeOf'', ''propertyIsEnumerable'',
      ''toLocaleString'', ''toString'', ''valueOf'', ''__proto__'', ''__defineGetter__'',
      ''__defineSetter__'', ''__lookupGetter__'', ''__lookupSetter__'']"

definition materialsLookup :: "(string \<rightharpoonup> Material) \<Rightarrow> string \<Rightarrow> Material option" where
  "materialsLookup materials k =
     (case materials k of
        Some stored \<Rightarrow> Some stored
      | None \<Rightarrow> if k \<in> set objectPrototypeKeys then Some (PrototypeMember k) else None)"

definition restore :: "(string \<rightharpoonup> Material) \<Rightarrow> Object3D \<Rightarrow> (string \<rightharpoonup> Material) \<times> Object3D" where
  "restore materials ob =
     (case materialsLookup materials (uuid ob) of
        Some found \<Rightarrow> (materials(uuid ob := None), ob\<lparr>material := found\<rparr>)
      | None \<Rightarrow> (materials, ob))"

text \<open>Whether \<open>darken\<close> substitutes the material of an object.\<close>

definition darkened :: "Object3D \<Rightarrow> bool" where
  "darkened ob = (isMesh ob \<and> \<not> layersTest (layersMask ob) bloomLayerMask)"

fun traverse ::
  "((string \<rightharpoonup> Material) \<Rightarrow> Object3D \<Rightarrow> (string \<rightharpoonup> Material) \<times> Object3D)
     \<Rightarrow> (string \<rightharpoonup> Material) \<Rightarrow> Object3D list \<Rightarrow> (string \<rightharpoonup> Material) \<times> Object3D list" where
  "traverse callback materials [] = (materials, [])"
| "traverse callback materials (ob # rest) =
     (let (materials1, ob1) = callback materials ob;
          (materials2, rest1) = traverse callback materials1 rest
      in (materials2, ob1 # rest1))"

text \<open>
  The two render lines of \<^verbatim>\<open>animate\<close>. The result records the materials the bloom
  composer and the final composer find on the objects, the scene and the dictionary
  afterwards.
\<close>

record RenderedFrame =
  bloomPassMaterials :: "Material list"
  finalPassMaterials :: "Material list"
  sceneAfter :: "Object3D list"
  materialsAfter :: "string \<rightharpoonup> Material"

definition renderFrame :: "(string \<rightharpoonup> Material) \<Rightarrow> Object3D list \<Rightarrow> RenderedFrame" where
  "renderFrame materials scene =
     (let (materials1, scene1) = traverse darken materials scene;
          bloomInput = map material scene1;
          (materials2, scene2) = traverse restore materials1 scene1;
          finalInput = map material scene2
      in \<lparr>bloomPassMaterials = bloomInput, finalPassMaterials = finalInput,
          sceneAfter = scene2, materialsAfter = materials2\<rparr>)"

text \<open>
  A small scene: an ornament mesh on the default layer, the ribbon mesh with the bloom
  layer enabled, and the particle field, which is a \<^verbatim>\<open>Points\<close> object and not a mesh.
\<close>

definition sampleBody :: Object3D where
  "sampleBody = \<lparr>uuid = ''body'', isMesh = False, layersMask = 1, material = SingleMaterial 3\<rparr>"

definition sampleScene :: "Object3D list" where
  "sampleScene =
     [\<lparr>uuid = ''ornament'', isMesh = True, layersMask = 1, material = SingleMaterial 1\<rparr>,
      \<lparr>uuid = ''ribbon'', isMesh = True, layersMask = 3, material = SingleMaterial 2\<rparr>,
      sampleBody]"

text \<open>The same particle field, were its uuid the name of a member of \<^verbatim>\<open>Object.prototype\<close>.\<close>

definition constructorNamedBody :: Object3D where
  "constructorNamedBody = sampleBody\<lparr>uuid := ''constructor''\<rparr>"

section \<open>Properties of the easing function\<close>

lemma cube_mono: "(a::real) \<le> b \<Longrightarrow> a ^ 3 \<le> b ^ 3"
  by (simp add: power_mono_odd)

lemma easeInOutCubic_eq_eased: "easeInOutCubic m = eased m"
  by (simp add: easeInOutCubic_def eased_def)

lemma eased_mono: "x \<le> y \<Longrightarrow> eased x \<le> eased y"
proof -
  assume xy: "x \<le> y"
  have lo: "4 * a * a * a = 4 * a ^ 3" for a :: real
    by (simp add: power3_eq_cube)
  consider (low) "y < 0.5" | (cross) "x < 0.5" "0.5 \<le> y" | (high) "0.5 \<le> x"
    using xy by linarith
  then show ?thesis
  proof cases
    case low
    then have "x < 0.5" using xy by simp
    with low show ?thesis using cube_mono [OF xy] by (simp add: eased_def lo)
  next
    case cross
    have "x ^ 3 \<le> (1 / 2) ^ 3" using cross(1) by (intro cube_mono) simp
    then have a: "4 * x ^ 3 \<le> 1 / 2" by (simp add: power3_eq_cube)
    have "(- 2 * y + 2) ^ 3 \<le> 1 ^ 3" using cross(2) by (intro cube_mono) simp
    then have b: "1 / 2 \<le> 1 - (- 2 * y + 2) ^ 3 / 2" by simp
    show ?thesis using cross a b by (simp add: eased_def lo)
  next
    case high
    then have hy: "0.5 \<le> y" using xy by simp
    have "(- 2 * y + 2) ^ 3 \<le> (- 2 * x + 2) ^ 3" using xy by (intro cube_mono) simp
    then show ?thesis using high hy by (simp add: eased_def)
  qed
qed

lemma eased_1: "eased 1 = 1"
  by (simp add: eased_def)

text \<open>
  Claim C2. The easing function, in both of its copies (the one of
  \<^verbatim>\<open>MorphingInstances.update\<close> and the shader's \<^verbatim>\<open>easeInOutCubic\<close>), is monotonic
  non-decreasing on the interval from 0 to 1, and takes the value 0 at 0, 1 at 1 and 0.5
  at 0.5.
\<close>

theorem eased_monotone_endpoints:
  "(0 \<le> x \<and> x \<le> y \<and> y \<le> 1 \<longrightarrow>
      eased x \<le> eased y \<and> easeInOutCubic x \<le> easeInOutCubic y)
   \<and> eased 0 = 0 \<and> eased 1 = 1 \<and> eased 0.5 = 0.5
   \<and> easeInOutCubic 0 = 0 \<and> easeInOutCubic 1 = 1 \<and> easeInOutCubic 0.5 = 0.5"
proof -
  have "eased 0 = 0" "eased 0.5 = 0.5"
    by (simp_all add: eased_def)
  then show ?thesis
    using eased_mono [of x y] eased_1 by (simp add: easeInOutCubic_eq_eased)
qed

theorem eased_monotone_endpoints_witness:
  "(0::real) \<le> 1 / 4 \<and> (1 / 4 :: real) \<le> 3 / 4 \<and> (3 / 4 :: real) \<le> 1
   \<and> eased (1 / 4) = 1 / 16 \<and> eased (3 / 4) = 15 / 16
   \<and> eased (1 / 4) \<le> eased (3 / 4)
   \<and> easeInOutCubic (1 / 4) \<le> easeInOutCubic (3 / 4)"
proof -
  have v: "eased (1 / 4) = 1 / 16" "eased (3 / 4) = 15 / 16"
    by (simp_all add: eased_def power3_eq_cube)
  show ?thesis
    using eased_monotone_endpoints [of "1 / 4" "3 / 4"] v by simp
qed

section \<open>Properties of the scatter position generator\<close>

lemma sq3_triangle:
  "sqrt ((a + d)\<^sup>2 + (b + e)\<^sup>2 + (c + f)\<^sup>2)
     \<le> sqrt (a\<^sup>2 + b\<^sup>2 + c\<^sup>2) + sqrt (d\<^sup>2 + e\<^sup>2 + f\<^sup>2)"
proof -
  let ?p = "sqrt (a\<^sup>2 + b\<^sup>2)" and ?q = "sqrt (d\<^sup>2 + e\<^sup>2)"
  have "sqrt ((a + d)\<^sup>2 + (b + e)\<^sup>2) \<le> ?p + ?q"
    by (rule real_sqrt_sum_squares_triangle_ineq)
  then have "(sqrt ((a + d)\<^sup>2 + (b + e)\<^sup>2))\<^sup>2 \<le> (?p + ?q)\<^sup>2"
    by (intro power_mono) simp_all
  then have "(a + d)\<^sup>2 + (b + e)\<^sup>2 \<le> (?p + ?q)\<^sup>2"
    by simp
  then have "sqrt ((a + d)\<^sup>2 + (b + e)\<^sup>2 + (c + f)\<^sup>2) \<le> sqrt ((?p + ?q)\<^sup>2 + (c + f)\<^sup>2)"
    by simp
  also have "\<dots> \<le> sqrt (?p\<^sup>2 + c\<^sup>2) + sqrt (?q\<^sup>2 + f\<^sup>2)"
    by (rule real_sqrt_sum_squares_triangle_ineq)
  finally show ?thesis by simp
qed

lemma unit_dir: "vlength (vec (sin p * cos t) (sin p * sin t) (cos p)) = 1"
proof -
  have "sin p * cos t * (sin p * cos t) + sin p * sin t * (sin p * sin t) + cos p * cos p
        = (sin p)\<^sup>2 * ((cos t)\<^sup>2 + (sin t)\<^sup>2) + (cos p)\<^sup>2"
    by (simp only: power2_eq_square algebra_simps)
  also have "\<dots> = 1" by simp
  finally have e: "sin p * cos t * (sin p * cos t) + sin p * sin t * (sin p * sin t) + cos p * cos p = 1" .
  show ?thesis
    unfolding vlength_def vec_def by (simp only: Vector3.simps e real_sqrt_one)
qed

lemma dist_scaled_dir:
  assumes "vlength d = 1" "0 \<le> r"
  shows "distanceTo (add (multiplyScalar d r) c) c = r"
proof -
  have "vx d * r * (vx d * r) + vy d * r * (vy d * r) + vz d * r * (vz d * r)
        = (vx d * vx d + vy d * vy d + vz d * vz d) * r\<^sup>2"
    by (simp add: power2_eq_square algebra_simps)
  moreover have "vx d * vx d + vy d * vy d + vz d * vz d = 1"
    using assms(1) by (simp add: vlength_def)
  ultimately show ?thesis
    using assms(2) by (simp add: distanceTo_def add_def multiplyScalar_def vec_def)
qed

lemma jitter_distance:
  assumes "\<bar>jx\<bar> \<le> j" "\<bar>jz\<bar> \<le> j"
  shows "\<bar>distanceTo (p\<lparr>vx := vx p + jx, vz := vz p + jz\<rparr>) c - distanceTo p c\<bar> \<le> j * sqrt 2"
proof -
  have j0: "0 \<le> j" using assms(1) by linarith
  have "jx\<^sup>2 \<le> j\<^sup>2" "jz\<^sup>2 \<le> j\<^sup>2"
    using assms by (simp_all add: abs_le_square_iff [symmetric] j0)
  then have "sqrt (jx\<^sup>2 + 0\<^sup>2 + jz\<^sup>2) \<le> sqrt (j\<^sup>2 * 2)"
    by (intro real_sqrt_le_mono) simp
  also have "\<dots> = j * sqrt 2"
    using j0 by (simp add: real_sqrt_mult)
  finally have len: "sqrt (jx\<^sup>2 + 0\<^sup>2 + jz\<^sup>2) \<le> j * sqrt 2" .
  have len': "sqrt ((- jx)\<^sup>2 + 0\<^sup>2 + (- jz)\<^sup>2) \<le> j * sqrt 2"
    using len by simp
  define a b e where "a = vx p - vx c" and "b = vy p - vy c" and "e = vz p - vz c"
  have d0: "distanceTo p c = sqrt (a\<^sup>2 + b\<^sup>2 + e\<^sup>2)"
    by (simp add: distanceTo_def a_def b_def e_def power2_eq_square)
  have d1: "distanceTo (p\<lparr>vx := vx p + jx, vz := vz p + jz\<rparr>) c
            = sqrt ((a + jx)\<^sup>2 + (b + 0)\<^sup>2 + (e + jz)\<^sup>2)"
    by (simp add: distanceTo_def a_def b_def e_def power2_eq_square algebra_simps)
  have up: "sqrt ((a + jx)\<^sup>2 + (b + 0)\<^sup>2 + (e + jz)\<^sup>2)
            \<le> sqrt (a\<^sup>2 + b\<^sup>2 + e\<^sup>2) + sqrt (jx\<^sup>2 + 0\<^sup>2 + jz\<^sup>2)"
    by (rule sq3_triangle)
  have "sqrt (((a + jx) + (- jx))\<^sup>2 + ((b + 0) + 0)\<^sup>2 + ((e + jz) + (- jz))\<^sup>2)
            \<le> sqrt ((a + jx)\<^sup>2 + (b + 0)\<^sup>2 + (e + jz)\<^sup>2) + sqrt ((- jx)\<^sup>2 + 0\<^sup>2 + (- jz)\<^sup>2)"
    by (rule sq3_triangle)
  then have down: "sqrt (a\<^sup>2 + b\<^sup>2 + e\<^sup>2)
            \<le> sqrt ((a + jx)\<^sup>2 + (b + 0)\<^sup>2 + (e + jz)\<^sup>2) + sqrt ((- jx)\<^sup>2 + 0\<^sup>2 + (- jz)\<^sup>2)"
    by simp
  show ?thesis
    unfolding d0 d1 using up down len len' by linarith
qed

lemma core_radius_range:
  assumes "0 \<le> w" "w < 1"
  shows "0 \<le> CORE_RADIUS * root 3 w" "CORE_RADIUS * root 3 w \<le> CORE_RADIUS"
proof -
  have "0 \<le> root 3 w" using assms(1) by (simp add: real_root_ge_zero)
  moreover have "root 3 w \<le> root 3 1" using assms(2) by (intro real_root_le_mono) simp_all
  ultimately show "0 \<le> CORE_RADIUS * root 3 w" "CORE_RADIUS * root 3 w \<le> CORE_RADIUS"
    by (simp_all add: CORE_RADIUS_def)
qed

lemma shell_radius_range:
  assumes "0 \<le> w" "w < 1"
  defines "r \<equiv> root 3 (w * (OUTER_RADIUS ^ 3 - (CORE_RADIUS * 1.05) ^ 3) + (CORE_RADIUS * 1.05) ^ 3)"
  shows "CORE_RADIUS * 1.05 \<le> r" "r \<le> OUTER_RADIUS"
proof -
  let ?lo = "CORE_RADIUS * 1.05" and ?hi = OUTER_RADIUS
  have gap: "0 \<le> ?hi ^ 3 - ?lo ^ 3"
    by (simp add: CORE_RADIUS_def OUTER_RADIUS_def power_divide)
  have "root 3 (?lo ^ 3) \<le> r"
    unfolding r_def using assms(1) gap by (intro real_root_le_mono) simp_all
  moreover have "root 3 (?lo ^ 3) = ?lo"
    by (intro real_root_power_cancel) (simp_all add: CORE_RADIUS_def)
  ultimately show "?lo \<le> r" by simp
  have "w * (?hi ^ 3 - ?lo ^ 3) \<le> 1 * (?hi ^ 3 - ?lo ^ 3)"
    using assms(2) gap by (intro mult_right_mono) simp_all
  then have "r \<le> root 3 (?hi ^ 3)"
    unfolding r_def by (intro real_root_le_mono) simp_all
  moreover have "root 3 (?hi ^ 3) = ?hi"
    by (intro real_root_power_cancel) (simp_all add: OUTER_RADIUS_def)
  ultimately show "r \<le> ?hi" by simp
qed

lemma dist_sphere_point:
  "0 \<le> r \<Longrightarrow>
   distanceTo (add (multiplyScalar (vec (sin p * cos t) (sin p * sin t) (cos p)) r) c) c = r"
  by (rule dist_scaled_dir [OF unit_dir])

lemma scatter_core_case:
  assumes "snd (getIsotropicScatterPos ov random) = False"
  shows "fst (getIsotropicScatterPos ov random)
         = add (multiplyScalar (scatterDir ov random)
                  (CORE_RADIUS * root 3 (random (drawBase ov + 2)))) formationCenter"
  using assms
  by (simp add: getIsotropicScatterPos_def scatterDir_def formationCenter_def Let_def
        split: if_splits)

lemma scatter_plain_halo_case:
  assumes "snd (getIsotropicScatterPos ov random)" "\<not> random (drawBase ov + 3) < 0.3"
  shows "fst (getIsotropicScatterPos ov random) = shellPoint ov random"
  using assms
  by (simp add: getIsotropicScatterPos_def scatterDir_def formationCenter_def shellPoint_def
        shellRadius_def Let_def split: if_splits)

lemma scatter_jitter_halo_case:
  assumes "snd (getIsotropicScatterPos ov random)" "random (drawBase ov + 3) < 0.3"
  shows "fst (getIsotropicScatterPos ov random)
         = (shellPoint ov random)\<lparr>vx := vx (shellPoint ov random) + jitterX ov random,
                                   vz := vz (shellPoint ov random) + jitterZ ov random\<rparr>"
  using assms
  by (simp add: getIsotropicScatterPos_def scatterDir_def formationCenter_def shellPoint_def
        shellRadius_def Let_def jitterX_def jitterZ_def split: if_splits)

lemma jitter_small: "\<bar>jitterX ov random\<bar> \<le> 0.15" "\<bar>jitterZ ov random\<bar> \<le> 0.15"
proof -
  have "\<bar>sin a\<bar> \<le> 1" "\<bar>cos a\<bar> \<le> 1" for a :: real
    by simp_all
  then show "\<bar>jitterX ov random\<bar> \<le> 0.15" "\<bar>jitterZ ov random\<bar> \<le> 0.15"
    unfolding jitterX_def jitterZ_def abs_mult by simp_all
qed

lemma shellPoint_distance:
  assumes "0 \<le> random (drawBase ov + 2)" "random (drawBase ov + 2) < 1"
  shows "CORE_RADIUS * 1.05 \<le> distanceTo (shellPoint ov random) formationCenter"
    and "distanceTo (shellPoint ov random) formationCenter \<le> OUTER_RADIUS"
proof -
  let ?r = "shellRadius (random (drawBase ov + 2))"
  have lo: "CORE_RADIUS * 1.05 \<le> ?r" and hi: "?r \<le> OUTER_RADIUS"
    unfolding shellRadius_def using shell_radius_range [OF assms] by simp_all
  have "0 \<le> ?r" using lo by (simp add: CORE_RADIUS_def)
  then have "distanceTo (shellPoint ov random) formationCenter = ?r"
    unfolding shellPoint_def scatterDir_def Let_def by (rule dist_sphere_point)
  with lo hi show "CORE_RADIUS * 1.05 \<le> distanceTo (shellPoint ov random) formationCenter"
    and "distanceTo (shellPoint ov random) formationCenter \<le> OUTER_RADIUS"
    by simp_all
qed

text \<open>
  Claim C3 (amended). For all random draws in the half-open interval from 0 to 1: a
  core-sampled point lies within \<open>CORE_RADIUS\<close> of the formation center
  \<open>(0, 0.2, 0)\<close>; a halo-sampled point whose jitter coin is not below 0.3 lies between
  \<open>1.05 \<times> CORE_RADIUS\<close> and \<open>OUTER_RADIUS\<close> from it; a halo-sampled point in the jitter
  branch is such a shell point moved by at most 0.15 in \<open>x\<close> and in \<open>z\<close>, so its distance
  lies between \<open>1.05 \<times> CORE_RADIUS - 0.15 \<times> sqrt 2\<close> and \<open>OUTER_RADIUS + 0.15 \<times> sqrt 2\<close>.
  The claim as written (the shell bounds also in the jitter branch) fails, as the
  counterexample after the witness shows.
\<close>

theorem scatter_radius_bounds:
  fixes ov :: "bool option" and random :: "nat \<Rightarrow> real"
  assumes rng: "\<forall>k. 0 \<le> random k \<and> random k < 1"
  defines "res \<equiv> getIsotropicScatterPos ov random"
  defines "d \<equiv> distanceTo (fst res) formationCenter"
  shows "(\<not> snd res \<longrightarrow> d \<le> CORE_RADIUS)
       \<and> (snd res \<and> \<not> random (drawBase ov + 3) < 0.3 \<longrightarrow>
            1.05 * CORE_RADIUS \<le> d \<and> d \<le> OUTER_RADIUS)
       \<and> (snd res \<and> random (drawBase ov + 3) < 0.3 \<longrightarrow>
            1.05 * CORE_RADIUS - 0.15 * sqrt 2 \<le> d \<and> d \<le> OUTER_RADIUS + 0.15 * sqrt 2)"
proof (intro conjI impI)
  have w: "0 \<le> random (drawBase ov + 2)" "random (drawBase ov + 2) < 1"
    using rng by simp_all
  note sp = shellPoint_distance [of random ov, OF w]
  {
    assume "\<not> snd res"
    then have "fst res = add (multiplyScalar (scatterDir ov random)
                  (CORE_RADIUS * root 3 (random (drawBase ov + 2)))) formationCenter"
      unfolding res_def by (intro scatter_core_case) simp
    moreover note core_radius_range [OF w]
    ultimately show "d \<le> CORE_RADIUS"
      unfolding d_def scatterDir_def Let_def by (simp add: dist_sphere_point)
  }
  {
    assume "snd res \<and> \<not> random (drawBase ov + 3) < 0.3"
    then have "fst res = shellPoint ov random"
      unfolding res_def by (intro scatter_plain_halo_case) simp_all
    with sp show "1.05 * CORE_RADIUS \<le> d" "d \<le> OUTER_RADIUS"
      unfolding d_def by simp_all
  }
  {
    assume "snd res \<and> random (drawBase ov + 3) < 0.3"
    then have e: "fst res = (shellPoint ov random)\<lparr>vx := vx (shellPoint ov random) + jitterX ov random,
                                     vz := vz (shellPoint ov random) + jitterZ ov random\<rparr>"
      unfolding res_def by (intro scatter_jitter_halo_case) simp_all
    note j = jitter_small [of ov random]
    define D where "D = distanceTo (shellPoint ov random) formationCenter"
    define q :: real where "q = 0.15 * sqrt 2"
    define lo :: real where "lo = 1.05 * CORE_RADIUS"
    have "\<bar>d - D\<bar> \<le> q"
      unfolding d_def e D_def q_def by (rule jitter_distance [OF j])
    moreover have "lo \<le> D" "D \<le> OUTER_RADIUS"
      using sp by (simp_all add: D_def lo_def mult.commute)
    ultimately have "lo - q \<le> d" "d \<le> OUTER_RADIUS + q"
      by linarith+
    then show "1.05 * CORE_RADIUS - 0.15 * sqrt 2 \<le> d" "d \<le> OUTER_RADIUS + 0.15 * sqrt 2"
      unfolding lo_def q_def .
  }
qed

lemma scatterDrawsOutside_range: "0 \<le> scatterDrawsOutside k \<and> scatterDrawsOutside k < 1"
  by (simp add: scatterDrawsOutside_def)

lemma scatterDrawsOutside_halo: "snd (getIsotropicScatterPos (Some False) scatterDrawsOutside)"
  by (simp add: getIsotropicScatterPos_def Let_def)

lemma scatterDrawsOutside_far:
  "OUTER_RADIUS
   < distanceTo (fst (getIsotropicScatterPos (Some False) scatterDrawsOutside)) formationCenter"
proof -
  define R where "R = shellRadius (99999 / 100000)"
  define jx where "jx = jitterX (Some False) scatterDrawsOutside"
  define jz where "jz = jitterZ (Some False) scatterDrawsOutside"
  have dir: "scatterDir (Some False) scatterDrawsOutside = vec 0 1 0"
    by (simp add: scatterDir_def drawBase_def scatterDrawsOutside_def Let_def)
  have P: "shellPoint (Some False) scatterDrawsOutside = vec 0 (R + 0.2) 0"
    unfolding shellPoint_def dir
    by (simp add: R_def drawBase_def scatterDrawsOutside_def formationCenter_def
          SCATTER_CENTER_Y_def add_def multiplyScalar_def vec_def)
  have coin: "scatterDrawsOutside (drawBase (Some False) + 3) < 0.3"
    by (simp add: scatterDrawsOutside_def drawBase_def)
  have pos: "fst (getIsotropicScatterPos (Some False) scatterDrawsOutside) = vec jx (R + 0.2) jz"
    unfolding scatter_jitter_halo_case [OF scatterDrawsOutside_halo coin] P
    by (simp add: vec_def jx_def jz_def)
  have d: "distanceTo (vec jx (R + 0.2) jz) formationCenter = sqrt (jx\<^sup>2 + R\<^sup>2 + jz\<^sup>2)"
    by (simp add: distanceTo_def vec_def formationCenter_def SCATTER_CENTER_Y_def
          power2_eq_square)
  have "(159999 / 10000 :: real) ^ 3
        \<le> 99999 / 100000 * (OUTER_RADIUS ^ 3 - (CORE_RADIUS * 1.05) ^ 3) + (CORE_RADIUS * 1.05) ^ 3"
    by (simp add: OUTER_RADIUS_def CORE_RADIUS_def power_divide)
  then have "root 3 ((159999 / 10000) ^ 3) \<le> R"
    unfolding R_def shellRadius_def by (intro real_root_le_mono) simp_all
  moreover have "root 3 ((159999 / 10000 :: real) ^ 3) = 159999 / 10000"
    by (intro real_root_power_cancel) simp_all
  ultimately have R: "159999 / 10000 \<le> R"
    by simp
  then have R2: "(159999 / 10000)\<^sup>2 \<le> R\<^sup>2"
    by (intro power_mono) simp_all
  have jxs: "\<bar>jx\<bar> \<le> 0.15"
    unfolding jx_def by (rule jitter_small)
  define a where "a = jx * 1.7"
  have jzv: "jz = 0.15 * cos a"
    by (simp add: jz_def jitterZ_def P vec_def jx_def a_def drawBase_def scatterDrawsOutside_def)
  have "\<bar>a\<bar> \<le> pi / 3"
    using jxs pi_ge_two unfolding a_def abs_mult by simp
  then have "cos (pi / 3) \<le> cos \<bar>a\<bar>"
    by (intro cos_monotone_0_pi_le) simp_all
  then have "1 / 2 \<le> cos a"
    by (simp only: cos_abs_real cos_60)
  then have "3 / 40 \<le> jz"
    unfolding jzv by simp
  then have jz2: "(3 / 40)\<^sup>2 \<le> jz\<^sup>2"
    by (intro power_mono) simp_all
  have "OUTER_RADIUS\<^sup>2 < (159999 / 10000)\<^sup>2 + (3 / 40)\<^sup>2"
    by (simp add: OUTER_RADIUS_def power_divide)
  also have "\<dots> \<le> jx\<^sup>2 + R\<^sup>2 + jz\<^sup>2"
    using R2 jz2 zero_le_power2 [of jx] by linarith
  finally have "OUTER_RADIUS < sqrt (jx\<^sup>2 + R\<^sup>2 + jz\<^sup>2)"
    by (rule real_less_rsqrt)
  then show ?thesis
    unfolding pos d .
qed

theorem scatter_radius_bounds_witness:
  "(\<forall>k. 0 \<le> scatterDrawsOutside k \<and> scatterDrawsOutside k < 1)
   \<and> snd (getIsotropicScatterPos (Some False) scatterDrawsOutside)
   \<and> scatterDrawsOutside (drawBase (Some False) + 3) < 0.3
   \<and> distanceTo (fst (getIsotropicScatterPos (Some False) scatterDrawsOutside)) formationCenter
       \<le> OUTER_RADIUS + 0.15 * sqrt 2
   \<and> (\<forall>k. 0 \<le> scatterDrawsHalf k \<and> scatterDrawsHalf k < 1)
   \<and> \<not> snd (getIsotropicScatterPos None scatterDrawsHalf)
   \<and> distanceTo (fst (getIsotropicScatterPos None scatterDrawsHalf)) formationCenter
       \<le> CORE_RADIUS
   \<and> snd (getIsotropicScatterPos (Some False) scatterDrawsHalf)
   \<and> \<not> scatterDrawsHalf (drawBase (Some False) + 3) < 0.3
   \<and> 1.05 * CORE_RADIUS
       \<le> distanceTo (fst (getIsotropicScatterPos (Some False) scatterDrawsHalf)) formationCenter
   \<and> distanceTo (fst (getIsotropicScatterPos (Some False) scatterDrawsHalf)) formationCenter
       \<le> OUTER_RADIUS"
proof -
  have r: "\<forall>k. 0 \<le> scatterDrawsOutside k \<and> scatterDrawsOutside k < 1"
    by (simp add: scatterDrawsOutside_range)
  have c: "scatterDrawsOutside (drawBase (Some False) + 3) < 0.3"
    by (simp add: scatterDrawsOutside_def drawBase_def)
  have far: "distanceTo (fst (getIsotropicScatterPos (Some False) scatterDrawsOutside))
               formationCenter \<le> OUTER_RADIUS + 0.15 * sqrt 2"
    using scatter_radius_bounds [OF r, of "Some False"] c scatterDrawsOutside_halo by blast
  have h: "\<forall>k. 0 \<le> scatterDrawsHalf k \<and> scatterDrawsHalf k < 1"
    by (simp add: scatterDrawsHalf_def)
  have core: "\<not> snd (getIsotropicScatterPos None scatterDrawsHalf)"
    by (simp add: getIsotropicScatterPos_def Let_def scatterDrawsHalf_def CORE_RATIO_def)
  have halo: "snd (getIsotropicScatterPos (Some False) scatterDrawsHalf)"
    "\<not> scatterDrawsHalf (drawBase (Some False) + 3) < 0.3"
    by (simp_all add: getIsotropicScatterPos_def Let_def scatterDrawsHalf_def CORE_RATIO_def)
  have near: "distanceTo (fst (getIsotropicScatterPos None scatterDrawsHalf))
                formationCenter \<le> CORE_RADIUS"
    using scatter_radius_bounds [OF h, of None] core by blast
  have shell: "1.05 * CORE_RADIUS
       \<le> distanceTo (fst (getIsotropicScatterPos (Some False) scatterDrawsHalf)) formationCenter"
    "distanceTo (fst (getIsotropicScatterPos (Some False) scatterDrawsHalf)) formationCenter
       \<le> OUTER_RADIUS"
    using scatter_radius_bounds [OF h, of "Some False"] halo by blast+
  show ?thesis
    using r c far h core halo near shell scatterDrawsOutside_halo by blast
qed

text \<open>
  With the draws \<open>scatterDrawsOutside\<close> the shell point is \<open>(0, 0.2 + r, 0)\<close> with
  \<open>r \<ge> 15.9999\<close>, and the jitter moves it by at least 0.075 in \<open>z\<close>: the result is a halo
  point more than \<open>OUTER_RADIUS\<close> away from the center.
\<close>

theorem scatter_halo_jitter_counterexample:
  "scatterDrawsOutside 0 = 1 / 4 \<and> scatterDrawsOutside 1 = 1 / 2
   \<and> scatterDrawsOutside 2 = 99999 / 100000 \<and> scatterDrawsOutside 3 = 0
   \<and> scatterDrawsOutside 4 = 0
   \<and> snd (getIsotropicScatterPos (Some False) scatterDrawsOutside)
   \<and> \<not> distanceTo (fst (getIsotropicScatterPos (Some False) scatterDrawsOutside)) formationCenter
         \<le> OUTER_RADIUS"
  using scatterDrawsOutside_far scatterDrawsOutside_halo by (simp add: scatterDrawsOutside_def)

section \<open>Debouncing of the raw gesture class\<close>

lemma predictWebcam_gesture:
  "hand f = Some h \<Longrightarrow>
   gesture (fst (predictWebcam s f))
   = fst (commitStep (debounceStep (gesture s) (rawGesture h)) (focusState s) (rawGesture h) (now f))"
  by (simp add: predictWebcam_def Let_def split: prod.splits)

lemma predictWebcam_calls:
  "hand f = Some h \<Longrightarrow>
   snd (predictWebcam s f)
   = snd (wristStep (handTracking s) (drag s) h)
     @ snd (snd (commitStep (debounceStep (gesture s) (rawGesture h)) (focusState s) (rawGesture h) (now f)))"
  by (simp add: predictWebcam_def Let_def split: prod.splits)

lemma predictWebcam_no_hand:
  "hand f = None \<Longrightarrow> gesture (fst (predictWebcam s f)) = gesture s
     \<and> snd (predictWebcam s f) = [SetIsHandRotating False]"
  by (simp add: predictWebcam_def)

lemma wristStep_calls: "c \<in> set (snd (wristStep tr d h)) \<Longrightarrow> \<exists>b. c = SetIsHandRotating b"
  by (auto simp: wristStep_def Let_def split: option.splits if_splits)

text \<open>Whether the commit block runs in a frame, read off the calls.\<close>

lemma commitStep_quiet:
  "debounceCount st < 8 \<Longrightarrow> commitStep st fs raw t = (st, fs, [])"
  by (simp add: commitStep_def)

lemma commitStep_commits:
  assumes "8 \<le> debounceCount st"
  shows "currentStableGesture (fst (commitStep st fs raw t)) = raw"
    and "SetDebugGesture raw \<in> set (snd (snd (commitStep st fs raw t)))"
    and "debounceCount (fst (commitStep st fs raw t)) = debounceCount st"
    and "lastRawGesture (fst (commitStep st fs raw t)) = lastRawGesture st"
  using assms by (simp_all add: commitStep_def Let_def)

lemma commitStep_counter:
  "debounceCount (fst (commitStep st fs raw t)) = debounceCount st"
  "lastRawGesture (fst (commitStep st fs raw t)) = lastRawGesture st"
  by (simp_all add: commitStep_def Let_def)

lemma debounce_reset:
  assumes "hand f = Some h" "rawGesture h \<noteq> lastRawGesture (gesture s) \<or> rawGesture h = UNKNOWN"
  shows "debounceCount (gesture (fst (predictWebcam s f))) = 0"
    and "lastRawGesture (gesture (fst (predictWebcam s f))) = rawGesture h"
    and "\<forall>g. SetDebugGesture g \<notin> set (snd (predictWebcam s f))"
    and "currentStableGesture (gesture (fst (predictWebcam s f))) = currentStableGesture (gesture s)"
proof -
  define st1 where "st1 = debounceStep (gesture s) (rawGesture h)"
  have d: "debounceCount st1 = 0" "lastRawGesture st1 = rawGesture h"
    "currentStableGesture st1 = currentStableGesture (gesture s)"
    using assms(2) by (auto simp: st1_def debounceStep_def)
  have q: "commitStep st1 (focusState s) (rawGesture h) (now f) = (st1, focusState s, [])"
    by (rule commitStep_quiet) (simp add: d)
  have g: "gesture (fst (predictWebcam s f)) = st1"
    unfolding predictWebcam_gesture [OF assms(1)] st1_def [symmetric] q by simp
  have c: "snd (predictWebcam s f) = snd (wristStep (handTracking s) (drag s) h)"
    unfolding predictWebcam_calls [OF assms(1)] st1_def [symmetric] q by simp
  show "debounceCount (gesture (fst (predictWebcam s f))) = 0"
    and "lastRawGesture (gesture (fst (predictWebcam s f))) = rawGesture h"
    and "currentStableGesture (gesture (fst (predictWebcam s f))) = currentStableGesture (gesture s)"
    unfolding g by (rule d)+
  show "\<forall>g. SetDebugGesture g \<notin> set (snd (predictWebcam s f))"
    unfolding c using wristStep_calls by fastforce
qed

lemma debounce_repeat:
  assumes "hand f = Some h" "rawGesture h = lastRawGesture (gesture s)" "rawGesture h \<noteq> UNKNOWN"
  shows "debounceCount (gesture (fst (predictWebcam s f))) = debounceCount (gesture s) + 1"
    and "lastRawGesture (gesture (fst (predictWebcam s f))) = rawGesture h"
  using assms
  by (simp_all add: predictWebcam_gesture [OF assms(1)] commitStep_counter debounceStep_def)

lemma debounce_repeat_quiet:
  assumes "hand f = Some h" "rawGesture h = lastRawGesture (gesture s)" "rawGesture h \<noteq> UNKNOWN"
    and "debounceCount (gesture s) + 1 < 8"
  shows "\<forall>g. SetDebugGesture g \<notin> set (snd (predictWebcam s f))"
    and "currentStableGesture (gesture (fst (predictWebcam s f))) = currentStableGesture (gesture s)"
proof -
  define st1 where "st1 = debounceStep (gesture s) (rawGesture h)"
  have d: "debounceCount st1 = debounceCount (gesture s) + 1"
    "currentStableGesture st1 = currentStableGesture (gesture s)"
    using assms(2,3) by (simp_all add: st1_def debounceStep_def)
  have q: "commitStep st1 (focusState s) (rawGesture h) (now f) = (st1, focusState s, [])"
    using assms(4) by (intro commitStep_quiet) (simp add: d)
  have g: "gesture (fst (predictWebcam s f)) = st1"
    unfolding predictWebcam_gesture [OF assms(1)] st1_def [symmetric] q by simp
  have c: "snd (predictWebcam s f) = snd (wristStep (handTracking s) (drag s) h)"
    unfolding predictWebcam_calls [OF assms(1)] st1_def [symmetric] q by simp
  show "currentStableGesture (gesture (fst (predictWebcam s f))) = currentStableGesture (gesture s)"
    unfolding g by (rule d)
  show "\<forall>g. SetDebugGesture g \<notin> set (snd (predictWebcam s f))"
    unfolding c using wristStep_calls by fastforce
qed

lemma debounce_repeat_commit:
  assumes "hand f = Some h" "rawGesture h = lastRawGesture (gesture s)" "rawGesture h \<noteq> UNKNOWN"
    and "7 \<le> debounceCount (gesture s)"
  shows "SetDebugGesture (rawGesture h) \<in> set (snd (predictWebcam s f))"
    and "currentStableGesture (gesture (fst (predictWebcam s f))) = rawGesture h"
proof -
  have d: "8 \<le> debounceCount (debounceStep (gesture s) (rawGesture h))"
    using assms(2,3,4) by (simp add: debounceStep_def)
  show "SetDebugGesture (rawGesture h) \<in> set (snd (predictWebcam s f))"
    using commitStep_commits(2) [OF d] by (simp add: predictWebcam_calls [OF assms(1)])
  show "currentStableGesture (gesture (fst (predictWebcam s f))) = rawGesture h"
    using commitStep_commits(1) [OF d] by (simp add: predictWebcam_gesture [OF assms(1)])
qed

lemma showsGesture_hand: "showsGesture g f \<Longrightarrow> \<exists>h. hand f = Some h \<and> rawGesture h = g"
  by (auto simp: showsGesture_def split: option.splits)

text \<open>A held gesture below the threshold: the counter climbs, nothing is committed.\<close>

lemma held_below_threshold:
  assumes "g \<noteq> UNKNOWN" "\<forall>f \<in> set fs. showsGesture g f"
    and "lastRawGesture (gesture s) = g" "debounceCount (gesture s) + length fs < 8"
  shows "debounceCount (gesture (fst (runFrames s fs))) = debounceCount (gesture s) + length fs
       \<and> lastRawGesture (gesture (fst (runFrames s fs))) = g
       \<and> currentStableGesture (gesture (fst (runFrames s fs))) = currentStableGesture (gesture s)
       \<and> (\<forall>g'. SetDebugGesture g' \<notin> set (snd (runFrames s fs)))"
  using assms(2-)
proof (induction fs arbitrary: s)
  case Nil
  then show ?case by simp
next
  case (Cons f fs)
  obtain h where h: "hand f = Some h" "rawGesture h = g"
    using Cons.prems(1) showsGesture_hand by fastforce
  define s1 where "s1 = fst (predictWebcam s f)"
  have r: "rawGesture h = lastRawGesture (gesture s)" "rawGesture h \<noteq> UNKNOWN"
    using h Cons.prems(2) assms(1) by simp_all
  have below: "debounceCount (gesture s) + 1 < 8"
    using Cons.prems(3) by simp
  have c1: "debounceCount (gesture s1) = debounceCount (gesture s) + 1"
    and l1: "lastRawGesture (gesture s1) = g"
    unfolding s1_def using debounce_repeat [OF h(1) r] h(2) by simp_all
  have q1: "\<forall>g'. SetDebugGesture g' \<notin> set (snd (predictWebcam s f))"
    and k1: "currentStableGesture (gesture s1) = currentStableGesture (gesture s)"
    unfolding s1_def using debounce_repeat_quiet [OF h(1) r below] by simp_all
  have ih: "debounceCount (gesture (fst (runFrames s1 fs))) = debounceCount (gesture s1) + length fs
       \<and> lastRawGesture (gesture (fst (runFrames s1 fs))) = g
       \<and> currentStableGesture (gesture (fst (runFrames s1 fs))) = currentStableGesture (gesture s1)
       \<and> (\<forall>g'. SetDebugGesture g' \<notin> set (snd (runFrames s1 fs)))"
    using Cons.prems(1,3) by (intro Cons.IH) (simp_all add: l1 c1)
  have run: "runFrames s (f # fs)
             = (fst (runFrames s1 fs), snd (predictWebcam s f) @ snd (runFrames s1 fs))"
    by (simp add: s1_def split: prod.splits)
  show ?case
    unfolding run using ih q1 by (simp add: c1 k1)
qed

text \<open>A fresh run of one class: the first frame only resets the counter.\<close>

lemma fresh_run_below_threshold:
  assumes "g \<noteq> UNKNOWN" "lastRawGesture (gesture s) \<noteq> g"
    and "\<forall>f \<in> set fs. showsGesture g f" "fs \<noteq> []" "length fs \<le> 8"
  shows "debounceCount (gesture (fst (runFrames s fs))) = length fs - 1
       \<and> lastRawGesture (gesture (fst (runFrames s fs))) = g
       \<and> currentStableGesture (gesture (fst (runFrames s fs))) = currentStableGesture (gesture s)
       \<and> (\<forall>g'. SetDebugGesture g' \<notin> set (snd (runFrames s fs)))"
proof -
  obtain f rest where fs: "fs = f # rest"
    using assms(4) by (cases fs) simp_all
  obtain h where h: "hand f = Some h" "rawGesture h = g"
    using assms(3) fs showsGesture_hand by fastforce
  define s1 where "s1 = fst (predictWebcam s f)"
  have chg: "rawGesture h \<noteq> lastRawGesture (gesture s) \<or> rawGesture h = UNKNOWN"
    using h(2) assms(2) by simp
  note first = debounce_reset [OF h(1) chg, folded s1_def]
  have rest: "debounceCount (gesture (fst (runFrames s1 rest))) = debounceCount (gesture s1) + length rest
       \<and> lastRawGesture (gesture (fst (runFrames s1 rest))) = g
       \<and> currentStableGesture (gesture (fst (runFrames s1 rest))) = currentStableGesture (gesture s1)
       \<and> (\<forall>g'. SetDebugGesture g' \<notin> set (snd (runFrames s1 rest)))"
    using assms(3,5) first(1,2) h(2) fs by (intro held_below_threshold [OF assms(1)]) simp_all
  have run: "runFrames s fs
             = (fst (runFrames s1 rest), snd (predictWebcam s f) @ snd (runFrames s1 rest))"
    by (simp add: fs s1_def split: prod.splits)
  show ?thesis
    unfolding run using rest first by (simp add: fs)
qed

text \<open>
  Claim C1 (amended). The counter counts repeats of the remembered raw class, and the commit
  block runs when it is at least 8. So from any state whose remembered raw class differs
  from a non-UNKNOWN class \<open>g\<close> (the initial state is one), feeding \<open>g\<close> for 8 consecutive
  frames commits nothing: no \<^verbatim>\<open>setDebugGesture\<close> call is made, the stable class is
  unchanged and the counter stands at 7. The 9th consecutive frame commits \<open>g\<close> as the
  stable class. On any frame whose raw class differs from the remembered raw class, or is
  UNKNOWN, the counter is reset to 0 and the remembered raw class becomes the frame's.
  The claim as written (commit on the 8th frame) fails, as the counterexample after the
  witness shows.
\<close>

theorem debounce_commits_on_ninth_frame:
  "(g \<noteq> UNKNOWN \<and> lastRawGesture (gesture s) \<noteq> g
      \<and> (\<forall>f \<in> set fs. showsGesture g f) \<and> length fs = 8 \<and> showsGesture g f9
    \<longrightarrow> (\<forall>g'. SetDebugGesture g' \<notin> set (snd (runFrames s fs)))
        \<and> currentStableGesture (gesture (fst (runFrames s fs))) = currentStableGesture (gesture s)
        \<and> debounceCount (gesture (fst (runFrames s fs))) = 7
        \<and> SetDebugGesture g \<in> set (snd (predictWebcam (fst (runFrames s fs)) f9))
        \<and> currentStableGesture (gesture (fst (predictWebcam (fst (runFrames s fs)) f9))) = g)
   \<and> (hand f = Some h \<and> (rawGesture h \<noteq> lastRawGesture (gesture s') \<or> rawGesture h = UNKNOWN)
    \<longrightarrow> debounceCount (gesture (fst (predictWebcam s' f))) = 0
        \<and> lastRawGesture (gesture (fst (predictWebcam s' f))) = rawGesture h)"
proof (intro conjI impI)
  show "debounceCount (gesture (fst (predictWebcam s' f))) = 0"
    and "lastRawGesture (gesture (fst (predictWebcam s' f))) = rawGesture h"
    if "hand f = Some h \<and> (rawGesture h \<noteq> lastRawGesture (gesture s') \<or> rawGesture h = UNKNOWN)"
    using that debounce_reset(1,2) [of f h s'] by simp_all
next
  assume a: "g \<noteq> UNKNOWN \<and> lastRawGesture (gesture s) \<noteq> g
      \<and> (\<forall>f \<in> set fs. showsGesture g f) \<and> length fs = 8 \<and> showsGesture g f9"
  define s8 where "s8 = fst (runFrames s fs)"
  have "fs \<noteq> []" "length fs \<le> 8"
    using a by auto
  with a have eight: "debounceCount (gesture s8) = length fs - 1
       \<and> lastRawGesture (gesture s8) = g
       \<and> currentStableGesture (gesture s8) = currentStableGesture (gesture s)
       \<and> (\<forall>g'. SetDebugGesture g' \<notin> set (snd (runFrames s fs)))"
    unfolding s8_def by (intro fresh_run_below_threshold) simp_all
  then show "\<forall>g'. SetDebugGesture g' \<notin> set (snd (runFrames s fs))"
    and "currentStableGesture (gesture (fst (runFrames s fs))) = currentStableGesture (gesture s)"
    and "debounceCount (gesture (fst (runFrames s fs))) = 7"
    using a by (simp_all add: s8_def)
  obtain h9 where h9: "hand f9 = Some h9" "rawGesture h9 = g"
    using a showsGesture_hand by blast
  have r: "rawGesture h9 = lastRawGesture (gesture s8)" "rawGesture h9 \<noteq> UNKNOWN"
    "7 \<le> debounceCount (gesture s8)"
    using h9 eight a by simp_all
  show "SetDebugGesture g \<in> set (snd (predictWebcam (fst (runFrames s fs)) f9))"
    and "currentStableGesture (gesture (fst (predictWebcam (fst (runFrames s fs)) f9))) = g"
    using debounce_repeat_commit [OF h9(1) r] h9(2) by (simp_all add: s8_def)
qed

lemma fistRun_shows: "\<forall>f \<in> set (fistRun n). showsGesture FIST f"
  by (simp add: fistRun_def showsGesture_def handFrame_def)

theorem debounce_commits_on_ninth_frame_witness:
  "currentStableGesture (gesture (fst (runFrames initialAppState (fistRun 8)))) = UNKNOWN
   \<and> debounceCount (gesture (fst (runFrames initialAppState (fistRun 8)))) = 7
   \<and> currentStableGesture (gesture (fst (predictWebcam (fst (runFrames initialAppState (fistRun 8)))
         (handFrame 1264 FIST 0.5 0.5)))) = FIST
   \<and> debounceCount (gesture (fst (predictWebcam initialAppState (handFrame 1000 UNKNOWN 0.5 0.5)))) = 0"
  using debounce_commits_on_ninth_frame [of FIST initialAppState "fistRun 8"
      "handFrame 1264 FIST 0.5 0.5" "handFrame 1000 UNKNOWN 0.5 0.5"
      "\<lparr>rawGesture = UNKNOWN, wristX = 0.5, wristY = 0.5\<rparr>" initialAppState]
    fistRun_shows [of 8]
  by (simp add: initialAppState_def fistRun_def showsGesture_def handFrame_def)

text \<open>
  Eight consecutive FIST frames from the initial state: the stable class is still UNKNOWN,
  nothing was committed, and the counter is 7.
\<close>

theorem debounce_eighth_frame_counterexample:
  "length (fistRun 8) = 8
   \<and> currentStableGesture (gesture (fst (runFrames initialAppState (fistRun 8)))) \<noteq> FIST
   \<and> SetDebugGesture FIST \<notin> set (snd (runFrames initialAppState (fistRun 8)))
   \<and> debounceCount (gesture (fst (runFrames initialAppState (fistRun 8)))) = 7"
proof -
  have "fistRun 8 \<noteq> []" "length (fistRun 8) \<le> 8"
    by (simp_all add: fistRun_def)
  then show ?thesis
    using fresh_run_below_threshold [of FIST initialAppState "fistRun 8"] fistRun_shows [of 8]
    by (simp add: initialAppState_def fistRun_def)
qed

section \<open>Cooldown of the discrete actions and held gestures\<close>

lemma commitStep_cooldown:
  assumes "t - lastActionTime st \<le> 800"
  shows "lastActionTime (fst (commitStep st fs raw t)) = lastActionTime st"
    and "\<forall>v. SetTargetMorph v \<notin> set (snd (snd (commitStep st fs raw t)))"
  using assms by (simp_all add: commitStep_def Let_def)

lemma commitStep_no_dispatch:
  assumes "\<forall>v. SetTargetMorph v \<notin> set (snd (snd (commitStep st fs raw t)))"
  shows "lastActionTime (fst (commitStep st fs raw t)) = lastActionTime st"
  using assms by (simp add: commitStep_def Let_def split: if_splits)

lemma commitStep_fires:
  assumes "8 \<le> debounceCount st" "800 < t - lastActionTime st"
  shows "raw = FIST \<Longrightarrow>
           lastActionTime (fst (commitStep st fs raw t)) = t
           \<and> count_list (snd (snd (commitStep st fs raw t))) (SetTargetMorph 0) = 1"
    and "raw = OPEN_PALM \<Longrightarrow>
           lastActionTime (fst (commitStep st fs raw t)) = t
           \<and> count_list (snd (snd (commitStep st fs raw t))) (SetTargetMorph 1) = 1"
  using assms by (simp_all add: commitStep_def Let_def)

lemma debounceStep_lastActionTime:
  "lastActionTime (debounceStep st raw) = lastActionTime st"
  by (simp add: debounceStep_def)

lemma wristStep_no_dispatch: "SetTargetMorph v \<notin> set (snd (wristStep tr d h))"
  using wristStep_calls by fastforce

lemma wristStep_count: "count_list (snd (wristStep tr d h)) (SetTargetMorph v) = 0"
  by (simp add: wristStep_no_dispatch)

lemma frame_in_cooldown:
  assumes "now f - lastActionTime (gesture s) \<le> 800"
  shows "lastActionTime (gesture (fst (predictWebcam s f))) = lastActionTime (gesture s)"
    and "\<forall>v. SetTargetMorph v \<notin> set (snd (predictWebcam s f))"
proof -
  show "lastActionTime (gesture (fst (predictWebcam s f))) = lastActionTime (gesture s)"
  proof (cases "hand f")
    case None
    then show ?thesis by (simp add: predictWebcam_no_hand)
  next
    case (Some h)
    show ?thesis
      unfolding predictWebcam_gesture [OF Some]
      using assms by (subst commitStep_cooldown(1)) (simp_all add: debounceStep_lastActionTime)
  qed
  show "\<forall>v. SetTargetMorph v \<notin> set (snd (predictWebcam s f))"
  proof (cases "hand f")
    case None
    then show ?thesis by (simp add: predictWebcam_no_hand)
  next
    case (Some h)
    have "\<forall>v. SetTargetMorph v \<notin> set (snd (snd (commitStep (debounceStep (gesture s) (rawGesture h))
              (focusState s) (rawGesture h) (now f))))"
      using assms by (intro commitStep_cooldown(2)) (simp add: debounceStep_lastActionTime)
    then show ?thesis
      unfolding predictWebcam_calls [OF Some] by (simp add: wristStep_no_dispatch)
  qed
qed

lemma frame_without_dispatch:
  assumes "\<forall>v. SetTargetMorph v \<notin> set (snd (predictWebcam s f))"
  shows "lastActionTime (gesture (fst (predictWebcam s f))) = lastActionTime (gesture s)"
proof (cases "hand f")
  case None
  then show ?thesis by (simp add: predictWebcam_no_hand)
next
  case (Some h)
  have "\<forall>v. SetTargetMorph v \<notin> set (snd (snd (commitStep (debounceStep (gesture s) (rawGesture h))
              (focusState s) (rawGesture h) (now f))))"
    using assms unfolding predictWebcam_calls [OF Some] by simp
  then show ?thesis
    unfolding predictWebcam_gesture [OF Some]
    by (simp add: commitStep_no_dispatch debounceStep_lastActionTime)
qed

lemma runFrames_Cons:
  "runFrames s (f # fs)
   = (fst (runFrames (fst (predictWebcam s f)) fs),
      snd (predictWebcam s f) @ snd (runFrames (fst (predictWebcam s f)) fs))"
  by (simp split: prod.splits)

lemma run_in_cooldown:
  assumes "\<forall>f \<in> set fs. now f - lastActionTime (gesture s) \<le> 800"
  shows "lastActionTime (gesture (fst (runFrames s fs))) = lastActionTime (gesture s)
       \<and> (\<forall>v. SetTargetMorph v \<notin> set (snd (runFrames s fs)))"
  using assms
proof (induction fs arbitrary: s)
  case Nil
  then show ?case by simp
next
  case (Cons f fs)
  have f: "now f - lastActionTime (gesture s) \<le> 800"
    using Cons.prems by simp
  note one = frame_in_cooldown [OF f]
  have "lastActionTime (gesture (fst (runFrames (fst (predictWebcam s f)) fs)))
          = lastActionTime (gesture (fst (predictWebcam s f)))
       \<and> (\<forall>v. SetTargetMorph v \<notin> set (snd (runFrames (fst (predictWebcam s f)) fs)))"
    using Cons.prems by (intro Cons.IH) (simp add: one(1))
  then show ?case
    unfolding runFrames_Cons using one by simp
qed

lemma run_without_dispatch:
  assumes "\<forall>v. SetTargetMorph v \<notin> set (snd (runFrames s fs))"
  shows "lastActionTime (gesture (fst (runFrames s fs))) = lastActionTime (gesture s)"
  using assms
proof (induction fs arbitrary: s)
  case Nil
  then show ?case by simp
next
  case (Cons f fs)
  have a: "\<forall>v. SetTargetMorph v \<notin> set (snd (predictWebcam s f))"
    and b: "\<forall>v. SetTargetMorph v \<notin> set (snd (runFrames (fst (predictWebcam s f)) fs))"
    using Cons.prems unfolding runFrames_Cons by simp_all
  show ?case
    unfolding runFrames_Cons using Cons.IH [OF b] frame_without_dispatch [OF a] by simp
qed

text \<open>A frame in which a held known class is committed.\<close>

lemma held_commit_frame:
  assumes "showsGesture g f" "g \<noteq> UNKNOWN" "lastRawGesture (gesture s) = g"
    and "7 \<le> debounceCount (gesture s)"
  shows "800 < now f - lastActionTime (gesture s) \<Longrightarrow> g = FIST \<Longrightarrow>
           lastActionTime (gesture (fst (predictWebcam s f))) = now f
           \<and> count_list (snd (predictWebcam s f)) (SetTargetMorph 0) = 1"
    and "800 < now f - lastActionTime (gesture s) \<Longrightarrow> g = OPEN_PALM \<Longrightarrow>
           lastActionTime (gesture (fst (predictWebcam s f))) = now f
           \<and> count_list (snd (predictWebcam s f)) (SetTargetMorph 1) = 1"
    and "now f - lastActionTime (gesture s) \<le> 800 \<Longrightarrow>
           count_list (snd (predictWebcam s f)) (SetTargetMorph v) = 0"
proof -
  obtain h where h: "hand f = Some h" "rawGesture h = g"
    using assms(1) showsGesture_hand by blast
  define st1 where "st1 = debounceStep (gesture s) g"
  have d: "8 \<le> debounceCount st1" "lastActionTime st1 = lastActionTime (gesture s)"
    using assms(2,3,4) by (simp_all add: st1_def debounceStep_def)
  note g = predictWebcam_gesture [OF h(1), unfolded h(2)]
  note c = predictWebcam_calls [OF h(1), unfolded h(2)]
  have cool: "800 < now f - lastActionTime st1" if "800 < now f - lastActionTime (gesture s)"
    using that d(2) by simp
  show "lastActionTime (gesture (fst (predictWebcam s f))) = now f
           \<and> count_list (snd (predictWebcam s f)) (SetTargetMorph 0) = 1"
    if "800 < now f - lastActionTime (gesture s)" "g = FIST"
    unfolding g c st1_def [symmetric] using commitStep_fires(1) [OF d(1) cool [OF that(1)] that(2), of "focusState s"]
    by (simp add: wristStep_count)
  show "lastActionTime (gesture (fst (predictWebcam s f))) = now f
           \<and> count_list (snd (predictWebcam s f)) (SetTargetMorph 1) = 1"
    if "800 < now f - lastActionTime (gesture s)" "g = OPEN_PALM"
    unfolding g c st1_def [symmetric] using commitStep_fires(2) [OF d(1) cool [OF that(1)] that(2), of "focusState s"]
    by (simp add: wristStep_count)
  show "count_list (snd (predictWebcam s f)) (SetTargetMorph v) = 0"
    if "now f - lastActionTime (gesture s) \<le> 800"
    using frame_in_cooldown(2) [OF that] by simp
qed

text \<open>While a known class is held, every frame adds one to the counter, with no bound.\<close>

lemma held_run_counter:
  assumes "g \<noteq> UNKNOWN" "lastRawGesture (gesture s) = g" "\<forall>f \<in> set fs. showsGesture g f"
  shows "debounceCount (gesture (fst (runFrames s fs))) = debounceCount (gesture s) + length fs"
  using assms(2,3)
proof (induction fs arbitrary: s)
  case Nil
  then show ?case by simp
next
  case (Cons f fs)
  obtain h where h: "hand f = Some h" "rawGesture h = g"
    using Cons.prems(2) showsGesture_hand by fastforce
  have r: "rawGesture h = lastRawGesture (gesture s)" "rawGesture h \<noteq> UNKNOWN"
    using h(2) Cons.prems(1) assms(1) by simp_all
  note one = debounce_repeat [OF h(1) r]
  have "debounceCount (gesture (fst (runFrames (fst (predictWebcam s f)) fs)))
        = debounceCount (gesture (fst (predictWebcam s f))) + length fs"
    using Cons.prems(2) one(2) h(2) by (intro Cons.IH) simp_all
  then show ?case
    unfolding runFrames_Cons using one(1) by simp
qed

lemma runFrames_append:
  "runFrames s (xs @ ys)
   = (fst (runFrames (fst (runFrames s xs)) ys),
      snd (runFrames s xs) @ snd (runFrames (fst (runFrames s xs)) ys))"
proof (induction xs arbitrary: s)
  case Nil
  then show ?case by simp
next
  case (Cons x xs)
  show ?case
    unfolding append_Cons runFrames_Cons [of s x] Cons.IH by simp
qed

lemma runFrames_single: "runFrames s [f] = predictWebcam s f"
  by (simp split: prod.splits)

lemmas frame_eval = fistRun_def upt_rec [of _ "numeral _"] handFrame_def initialAppState_def
  predictWebcam_def wristStep_def debounceStep_def commitStep_def showsGesture_def Let_def

text \<open>The commit block runs on a frame exactly when the frame commits the class it shows.\<close>

lemma commitsGesture_iff:
  "hand f = Some h \<Longrightarrow>
   commitsGesture (rawGesture h) s f
   = (8 \<le> debounceCount (debounceStep (gesture s) (rawGesture h)))"
  by (auto simp: commitsGesture_def showsGesture_def debounceStep_def)

lemma commitStep_exact:
  assumes "8 \<le> debounceCount st"
  shows "commitStep st fs raw t
         = (st\<lparr>currentStableGesture := raw,
               lastActionTime := (if 800 < t - lastActionTime st \<and> (raw = FIST \<or> raw = OPEN_PALM)
                                  then t else lastActionTime st)\<rparr>,
            fs\<lparr>active := (raw = INDEX_UP)\<rparr>,
            SetDebugGesture raw #
              (if 800 < t - lastActionTime st
               then (if raw = FIST then [SetTargetMorph 0]
                     else if raw = OPEN_PALM then [SetTargetMorph 1] else [])
               else []))"
  using assms by (simp add: commitStep_def Let_def)

lemma predictWebcam_focus:
  "hand f = Some h \<Longrightarrow>
   focusState (fst (predictWebcam s f))
   = fst (snd (commitStep (debounceStep (gesture s) (rawGesture h)) (focusState s)
                 (rawGesture h) (now f)))"
  by (simp add: predictWebcam_def Let_def split: prod.splits)

text \<open>Everything a committing frame does to the gesture state, the focus flag and the calls.\<close>

lemma commit_frame_exact:
  assumes "commitsGesture g s f"
  defines "fire \<equiv> 800 < now f - lastActionTime (gesture s)"
  shows "SetDebugGesture g \<in> set (snd (predictWebcam s f))"
    and "active (focusState (fst (predictWebcam s f))) = (g = INDEX_UP)"
    and "count_list (snd (predictWebcam s f)) (SetTargetMorph v)
         = (if fire \<and> (g = FIST \<and> v = 0 \<or> g = OPEN_PALM \<and> v = 1) then 1 else 0)"
    and "lastActionTime (gesture (fst (predictWebcam s f)))
         = (if fire \<and> (g = FIST \<or> g = OPEN_PALM) then now f else lastActionTime (gesture s))"
proof -
  have a: "g \<noteq> UNKNOWN" "showsGesture g f" "lastRawGesture (gesture s) = g"
    "7 \<le> debounceCount (gesture s)"
    using assms(1) by (simp_all add: commitsGesture_def)
  obtain h where h: "hand f = Some h" "rawGesture h = g"
    using a(2) showsGesture_hand by blast
  define st1 where "st1 = debounceStep (gesture s) g"
  have d: "8 \<le> debounceCount st1" "lastActionTime st1 = lastActionTime (gesture s)"
    using a(1,3,4) by (simp_all add: st1_def debounceStep_def)
  note ex = commitStep_exact [OF d(1), of "focusState s" g "now f", unfolded d(2)]
  note g = predictWebcam_gesture [OF h(1), unfolded h(2)]
  note c = predictWebcam_calls [OF h(1), unfolded h(2)]
  note fo = predictWebcam_focus [OF h(1), unfolded h(2)]
  show "SetDebugGesture g \<in> set (snd (predictWebcam s f))"
    unfolding c st1_def [symmetric] ex by simp
  show "active (focusState (fst (predictWebcam s f))) = (g = INDEX_UP)"
    unfolding fo st1_def [symmetric] ex by simp
  show "count_list (snd (predictWebcam s f)) (SetTargetMorph v)
         = (if fire \<and> (g = FIST \<and> v = 0 \<or> g = OPEN_PALM \<and> v = 1) then 1 else 0)"
    unfolding c st1_def [symmetric] ex fire_def by (auto simp: wristStep_count)
  show "lastActionTime (gesture (fst (predictWebcam s f)))
         = (if fire \<and> (g = FIST \<or> g = OPEN_PALM) then now f else lastActionTime (gesture s))"
    unfolding g st1_def [symmetric] ex fire_def by (simp add: d(2))
qed

lemma two_commit_run:
  "snd (runFrames s (f1 # mid @ [f2]))
   = snd (predictWebcam s f1) @ snd (runFrames (fst (predictWebcam s f1)) mid)
     @ snd (predictWebcam (fst (runFrames s (f1 # mid))) f2)"
  unfolding runFrames_Cons [of s f1] runFrames_append runFrames_single by simp

lemma two_fist_commits:
  assumes first: "commitsGesture FIST s f1" "800 < now f1 - lastActionTime (gesture s)"
    and second: "commitsGesture FIST (fst (runFrames s (f1 # mid))) f2"
    and quiet: "\<forall>v. SetTargetMorph v \<notin> set (snd (runFrames (fst (predictWebcam s f1)) mid))"
  shows "count_list (snd (runFrames s (f1 # mid @ [f2]))) (SetTargetMorph 0)
         = (if 800 < now f2 - now f1 then 2 else 1)"
proof -
  define s1 where "s1 = fst (predictWebcam s f1)"
  define s2 where "s2 = fst (runFrames s (f1 # mid))"
  have s2: "s2 = fst (runFrames s1 mid)"
    unfolding s2_def s1_def runFrames_Cons by simp
  have one: "lastActionTime (gesture s1) = now f1"
    "count_list (snd (predictWebcam s f1)) (SetTargetMorph 0) = 1"
    unfolding s1_def using commit_frame_exact(3,4) [OF first(1)] first(2) by simp_all
  have m: "lastActionTime (gesture s2) = now f1"
    unfolding s2 using run_without_dispatch [of s1 mid] quiet one(1) by (simp add: s1_def)
  have two: "count_list (snd (predictWebcam s2 f2)) (SetTargetMorph 0)
             = (if 800 < now f2 - now f1 then 1 else 0)"
    using commit_frame_exact(3) [OF second [folded s2_def], of 0] by (simp add: m)
  have mid0: "count_list (snd (runFrames s1 mid)) (SetTargetMorph 0) = 0"
    using quiet by (simp add: s1_def)
  show ?thesis
    unfolding two_commit_run s1_def [symmetric] s2_def [symmetric]
    using one(2) two mid0 by simp
qed

lemma quiet_in_cooldown:
  assumes "commitsGesture FIST s f1" "800 < now f1 - lastActionTime (gesture s)"
    and "\<forall>f' \<in> set mid. now f' - now f1 \<le> 800"
  shows "\<forall>v. SetTargetMorph v \<notin> set (snd (runFrames (fst (predictWebcam s f1)) mid))"
proof -
  have "lastActionTime (gesture (fst (predictWebcam s f1))) = now f1"
    using commit_frame_exact(4) [OF assms(1)] assms(2) by simp
  then show ?thesis
    using run_in_cooldown [of mid "fst (predictWebcam s f1)"] assms(3) by simp
qed

text \<open>
  Claim C5 (amended). On a frame that commits a class \<open>g\<close> (it repeats the remembered raw
  class, not UNKNOWN, with the counter already at 7 or more), \<^verbatim>\<open>setDebugGesture(g)\<close> is
  called and the focus flag is set to \<open>g = INDEX_UP\<close> whatever the time: these are not gated.
  The morph actions are gated by the cooldown: \<^verbatim>\<open>setTargetMorph(0)\<close> is called, once, exactly
  when \<open>g\<close> is FIST and more than 800 ms have passed since \<^verbatim>\<open>lastActionTime\<close>, and
  \<^verbatim>\<open>setTargetMorph(1)\<close>, once, exactly when \<open>g\<close> is OPEN_PALM and more than 800 ms have passed;
  \<^verbatim>\<open>lastActionTime\<close> becomes the time of the frame exactly in these two cases. V_SIGN and
  INDEX_UP dispatch no morph action and leave \<^verbatim>\<open>lastActionTime\<close> alone.

  For two frames \<open>f1\<close> and \<open>f2\<close> that commit FIST, with any frames \<open>mid\<close> between them, the
  count of the claim needs the first commit to be itself out of the cooldown (more than
  800 ms after \<^verbatim>\<open>lastActionTime\<close>), so that it dispatches. Then no frame within 800 ms of
  \<open>f1\<close> dispatches a morph action; and when no frame in between dispatches one, the two
  commits dispatch the assemble action twice if they are more than 800 ms apart and once
  otherwise. In particular 500 ms apart gives one dispatch, and 900 ms apart with no
  dispatch in between gives two. Without the condition on the first commit the counts of
  the claim fail, as the counterexample after the witness shows.
\<close>

theorem cooldown_gates_morph_dispatch:
  "(commitsGesture g s f \<longrightarrow>
      SetDebugGesture g \<in> set (snd (predictWebcam s f))
      \<and> active (focusState (fst (predictWebcam s f))) = (g = INDEX_UP)
      \<and> count_list (snd (predictWebcam s f)) (SetTargetMorph 0)
          = (if g = FIST \<and> 800 < now f - lastActionTime (gesture s) then 1 else 0)
      \<and> count_list (snd (predictWebcam s f)) (SetTargetMorph 1)
          = (if g = OPEN_PALM \<and> 800 < now f - lastActionTime (gesture s) then 1 else 0)
      \<and> lastActionTime (gesture (fst (predictWebcam s f)))
          = (if (g = FIST \<or> g = OPEN_PALM) \<and> 800 < now f - lastActionTime (gesture s)
             then now f else lastActionTime (gesture s)))
   \<and> (commitsGesture FIST s0 f1 \<and> 800 < now f1 - lastActionTime (gesture s0)
        \<and> commitsGesture FIST (fst (runFrames s0 (f1 # mid))) f2
      \<longrightarrow>
        ((\<forall>f' \<in> set mid. now f' - now f1 \<le> 800) \<longrightarrow>
           (\<forall>v. SetTargetMorph v \<notin> set (snd (runFrames (fst (predictWebcam s0 f1)) mid))))
        \<and> ((\<forall>v. SetTargetMorph v \<notin> set (snd (runFrames (fst (predictWebcam s0 f1)) mid))) \<longrightarrow>
             count_list (snd (runFrames s0 (f1 # mid @ [f2]))) (SetTargetMorph 0)
             = (if 800 < now f2 - now f1 then 2 else 1))
        \<and> (now f2 = now f1 + 500 \<and> (\<forall>f' \<in> set mid. now f' \<le> now f2) \<longrightarrow>
             count_list (snd (runFrames s0 (f1 # mid @ [f2]))) (SetTargetMorph 0) = 1)
        \<and> (now f2 = now f1 + 900
             \<and> (\<forall>v. SetTargetMorph v \<notin> set (snd (runFrames (fst (predictWebcam s0 f1)) mid)))
           \<longrightarrow> count_list (snd (runFrames s0 (f1 # mid @ [f2]))) (SetTargetMorph 0) = 2))"
proof (intro conjI impI)
  assume c: "commitsGesture g s f"
  note ex = commit_frame_exact [OF c]
  show "SetDebugGesture g \<in> set (snd (predictWebcam s f))"
    by (rule ex(1))
  show "active (focusState (fst (predictWebcam s f))) = (g = INDEX_UP)"
    by (rule ex(2))
  show "count_list (snd (predictWebcam s f)) (SetTargetMorph 0)
          = (if g = FIST \<and> 800 < now f - lastActionTime (gesture s) then 1 else 0)"
    using ex(3) [of 0] by auto
  show "count_list (snd (predictWebcam s f)) (SetTargetMorph 1)
          = (if g = OPEN_PALM \<and> 800 < now f - lastActionTime (gesture s) then 1 else 0)"
    using ex(3) [of 1] by auto
  show "lastActionTime (gesture (fst (predictWebcam s f)))
          = (if (g = FIST \<or> g = OPEN_PALM) \<and> 800 < now f - lastActionTime (gesture s)
             then now f else lastActionTime (gesture s))"
    using ex(4) by auto
next
  assume a: "commitsGesture FIST s0 f1 \<and> 800 < now f1 - lastActionTime (gesture s0)
        \<and> commitsGesture FIST (fst (runFrames s0 (f1 # mid))) f2"
  then have first: "commitsGesture FIST s0 f1" "800 < now f1 - lastActionTime (gesture s0)"
    and second: "commitsGesture FIST (fst (runFrames s0 (f1 # mid))) f2"
    by simp_all
  note cnt = two_fist_commits [OF first second]
  note qui = quiet_in_cooldown [OF first]
  show "\<forall>v. SetTargetMorph v \<notin> set (snd (runFrames (fst (predictWebcam s0 f1)) mid))"
    if "\<forall>f' \<in> set mid. now f' - now f1 \<le> 800"
    using that by (rule qui)
  show "count_list (snd (runFrames s0 (f1 # mid @ [f2]))) (SetTargetMorph 0)
             = (if 800 < now f2 - now f1 then 2 else 1)"
    if "\<forall>v. SetTargetMorph v \<notin> set (snd (runFrames (fst (predictWebcam s0 f1)) mid))"
    using that by (rule cnt)
  show "count_list (snd (runFrames s0 (f1 # mid @ [f2]))) (SetTargetMorph 0) = 1"
    if h: "now f2 = now f1 + 500 \<and> (\<forall>f' \<in> set mid. now f' \<le> now f2)"
  proof -
    have "\<forall>f' \<in> set mid. now f' - now f1 \<le> 800"
      using h by auto
    from cnt [OF qui [OF this]] h show ?thesis by simp
  qed
  show "count_list (snd (runFrames s0 (f1 # mid @ [f2]))) (SetTargetMorph 0) = 2"
    if h: "now f2 = now f1 + 900
             \<and> (\<forall>v. SetTargetMorph v \<notin> set (snd (runFrames (fst (predictWebcam s0 f1)) mid)))"
    using cnt h by simp
qed

lemma after_eight_fists:
  "fst (runFrames initialAppState (fistRun 8))
   = \<lparr>gesture = \<lparr>lastRawGesture = FIST, debounceCount = 7,
                  currentStableGesture = UNKNOWN, lastActionTime = 0\<rparr>,
      drag = \<lparr>yawTarget = 0, pitchTarget = 0\<rparr>,
      focusState = \<lparr>active = False, focusId = None\<rparr>,
      handTracking = Some (0.5, 0.5)\<rparr>"
  by (simp add: frame_eval)

lemma palmThenFistState_value:
  "palmThenFistState
   = \<lparr>gesture = \<lparr>lastRawGesture = FIST, debounceCount = 7,
                  currentStableGesture = OPEN_PALM, lastActionTime = 1264\<rparr>,
      drag = \<lparr>yawTarget = 0, pitchTarget = 0\<rparr>,
      focusState = \<lparr>active = False, focusId = None\<rparr>,
      handTracking = Some (0.5, 0.5)\<rparr>"
  by (simp add: palmThenFistState_def handRun_def frame_eval)

lemma palm_dispatched_once:
  "count_list (snd (runFrames initialAppState (handRun 1000 OPEN_PALM 9 @ handRun 1297 FIST 8)))
     (SetTargetMorph 1) = 1"
  by (simp add: handRun_def frame_eval)

lemma after_eight_vsigns:
  "gesture (fst (runFrames initialAppState (handRun 1000 V_SIGN 8)))
   = \<lparr>lastRawGesture = V_SIGN, debounceCount = 7,
      currentStableGesture = UNKNOWN, lastActionTime = 0\<rparr>"
  by (simp add: handRun_def frame_eval)

text \<open>
  After eight frames of a fist the ninth, at 1264 ms, commits and dispatches; the same
  with a V sign commits, calls \<^verbatim>\<open>setDebugGesture\<close> and dispatches nothing. With one more fist
  frame at 1500 ms in between, a second commit 500 or 800 ms after the first leaves the
  count at one, and a second commit 801 or 900 ms after the first makes it two.
\<close>

theorem cooldown_gates_morph_dispatch_witness:
  "commitsGesture FIST (fst (runFrames initialAppState (fistRun 8))) (handFrame 1264 FIST 0.5 0.5)
   \<and> count_list (snd (predictWebcam (fst (runFrames initialAppState (fistRun 8)))
        (handFrame 1264 FIST 0.5 0.5))) (SetTargetMorph 0) = 1
   \<and> commitsGesture V_SIGN (fst (runFrames initialAppState (handRun 1000 V_SIGN 8)))
        (handFrame 1264 V_SIGN 0.5 0.5)
   \<and> SetDebugGesture V_SIGN \<in> set (snd (predictWebcam
        (fst (runFrames initialAppState (handRun 1000 V_SIGN 8))) (handFrame 1264 V_SIGN 0.5 0.5)))
   \<and> count_list (snd (predictWebcam (fst (runFrames initialAppState (handRun 1000 V_SIGN 8)))
        (handFrame 1264 V_SIGN 0.5 0.5))) (SetTargetMorph 0) = 0
   \<and> count_list (snd (runFrames (fst (runFrames initialAppState (fistRun 8)))
       (handFrame 1264 FIST 0.5 0.5 # [handFrame 1500 FIST 0.5 0.5] @ [handFrame 1764 FIST 0.5 0.5])))
     (SetTargetMorph 0) = 1
   \<and> count_list (snd (runFrames (fst (runFrames initialAppState (fistRun 8)))
       (handFrame 1264 FIST 0.5 0.5 # [handFrame 1500 FIST 0.5 0.5] @ [handFrame 2064 FIST 0.5 0.5])))
     (SetTargetMorph 0) = 1
   \<and> count_list (snd (runFrames (fst (runFrames initialAppState (fistRun 8)))
       (handFrame 1264 FIST 0.5 0.5 # [handFrame 1500 FIST 0.5 0.5] @ [handFrame 2065 FIST 0.5 0.5])))
     (SetTargetMorph 0) = 2
   \<and> count_list (snd (runFrames (fst (runFrames initialAppState (fistRun 8)))
       (handFrame 1264 FIST 0.5 0.5 # [handFrame 1500 FIST 0.5 0.5] @ [handFrame 2164 FIST 0.5 0.5])))
     (SetTargetMorph 0) = 2"
proof -
  let ?s = "fst (runFrames initialAppState (fistRun 8))"
  let ?v = "fst (runFrames initialAppState (handRun 1000 V_SIGN 8))"
  let ?f1 = "handFrame 1264 FIST 0.5 0.5" and ?m = "[handFrame 1500 FIST 0.5 0.5]"
  have a: "commitsGesture FIST ?s ?f1 \<and> 800 < now ?f1 - lastActionTime (gesture ?s)
           \<and> commitsGesture FIST (fst (runFrames ?s (?f1 # ?m))) (handFrame t FIST 0.5 0.5)" for t
    unfolding after_eight_fists by (simp add: commitsGesture_def frame_eval)
  have v: "commitsGesture V_SIGN ?v (handFrame 1264 V_SIGN 0.5 0.5)"
    by (simp add: commitsGesture_def after_eight_vsigns showsGesture_def handFrame_def)
  have q: "\<forall>f' \<in> set ?m. now f' - now ?f1 \<le> 800"
    by (simp add: handFrame_def)
  note t = cooldown_gates_morph_dispatch
  have quiet: "\<forall>v. SetTargetMorph v \<notin> set (snd (runFrames (fst (predictWebcam ?s ?f1)) ?m))"
    using t [of FIST ?s ?f1 ?s ?f1 ?m "handFrame 1764 FIST 0.5 0.5"] a [of 1764] q by blast
  have gap: "count_list (snd (runFrames ?s (?f1 # ?m @ [handFrame u FIST 0.5 0.5]))) (SetTargetMorph 0)
             = (if 800 < u - 1264 then 2 else 1)" for u
    using t [of FIST ?s ?f1 ?s ?f1 ?m "handFrame u FIST 0.5 0.5"] a [of u] quiet
    by (simp add: handFrame_def)
  have one: "count_list (snd (predictWebcam ?s ?f1)) (SetTargetMorph 0) = 1"
    using t [of FIST ?s ?f1 ?s ?f1 ?m "handFrame 1764 FIST 0.5 0.5"] a [of 1764]
    by simp
  have vs: "SetDebugGesture V_SIGN \<in> set (snd (predictWebcam ?v (handFrame 1264 V_SIGN 0.5 0.5)))"
    "count_list (snd (predictWebcam ?v (handFrame 1264 V_SIGN 0.5 0.5))) (SetTargetMorph 0) = 0"
    using t [of V_SIGN ?v "handFrame 1264 V_SIGN 0.5 0.5" ?s ?f1 ?m "handFrame 1764 FIST 0.5 0.5"] v
    by simp_all
  show ?thesis
    using a [of 1764] v one vs gap [of 1764] gap [of 2064] gap [of 2065] gap [of 2164] by simp
qed

text \<open>
  The open palm has dispatched at 1264 ms. The fist that follows commits at 1561 ms, inside
  the cooldown, and dispatches nothing. A second commit 900 ms later, at 2461 ms, is then
  the only dispatch of the assemble action: one, not two. And a second commit 500 ms after
  the first, at 2061 ms, is still inside the cooldown of the palm: none, not one.
\<close>

theorem cooldown_first_commit_counterexample:
  "commitsGesture FIST palmThenFistState (handFrame 1561 FIST 0.5 0.5)
   \<and> commitsGesture FIST (fst (runFrames palmThenFistState [handFrame 1561 FIST 0.5 0.5]))
        (handFrame 2461 FIST 0.5 0.5)
   \<and> count_list (snd (runFrames palmThenFistState
        [handFrame 1561 FIST 0.5 0.5, handFrame 2461 FIST 0.5 0.5])) (SetTargetMorph 0) = 1
   \<and> commitsGesture FIST (fst (runFrames palmThenFistState [handFrame 1561 FIST 0.5 0.5]))
        (handFrame 2061 FIST 0.5 0.5)
   \<and> count_list (snd (runFrames palmThenFistState
        [handFrame 1561 FIST 0.5 0.5, handFrame 2061 FIST 0.5 0.5])) (SetTargetMorph 0) = 0"
  unfolding palmThenFistState_value by (simp add: commitsGesture_def frame_eval)

text \<open>
  Claim C10. While the remembered raw class is a non-UNKNOWN class \<open>g\<close> and the frames keep
  showing \<open>g\<close>, every frame adds one to the counter, without bound: after a run \<open>fs\<close> of
  such frames the counter has grown by the length of \<open>fs\<close>. Once the counter is at least 7
  before a frame, that frame runs the commit block (it calls \<^verbatim>\<open>setDebugGesture(g)\<close> and
  sets the stable class), on every frame of the held gesture and not only at its onset; and
  whenever more than 800 ms have passed since the last dispatch, a held FIST dispatches
  \<^verbatim>\<open>setTargetMorph(0)\<close> again and a held OPEN_PALM \<^verbatim>\<open>setTargetMorph(1)\<close>, and the time
  of the last action becomes the frame's time.
\<close>

theorem held_gesture_redispatches:
  assumes "g \<noteq> UNKNOWN" "lastRawGesture (gesture s) = g"
    and "showsGesture g f" "\<forall>f' \<in> set fs. showsGesture g f'"
  shows "debounceCount (gesture (fst (runFrames s fs))) = debounceCount (gesture s) + length fs
       \<and> debounceCount (gesture (fst (predictWebcam s f))) = debounceCount (gesture s) + 1
       \<and> lastRawGesture (gesture (fst (predictWebcam s f))) = g
       \<and> (7 \<le> debounceCount (gesture s) \<longrightarrow>
            SetDebugGesture g \<in> set (snd (predictWebcam s f))
            \<and> currentStableGesture (gesture (fst (predictWebcam s f))) = g
            \<and> (800 < now f - lastActionTime (gesture s) \<longrightarrow>
                 (g = FIST \<longrightarrow> count_list (snd (predictWebcam s f)) (SetTargetMorph 0) = 1
                     \<and> lastActionTime (gesture (fst (predictWebcam s f))) = now f)
                 \<and> (g = OPEN_PALM \<longrightarrow> count_list (snd (predictWebcam s f)) (SetTargetMorph 1) = 1
                     \<and> lastActionTime (gesture (fst (predictWebcam s f))) = now f)))"
proof -
  obtain h where h: "hand f = Some h" "rawGesture h = g"
    using assms(3) showsGesture_hand by blast
  have r: "rawGesture h = lastRawGesture (gesture s)" "rawGesture h \<noteq> UNKNOWN"
    using h(2) assms(1,2) by simp_all
  have run: "debounceCount (gesture (fst (runFrames s fs))) = debounceCount (gesture s) + length fs"
    using assms(2,4) by (rule held_run_counter [OF assms(1)])
  have step: "debounceCount (gesture (fst (predictWebcam s f))) = debounceCount (gesture s) + 1"
    "lastRawGesture (gesture (fst (predictWebcam s f))) = g"
    using debounce_repeat [OF h(1) r] h(2) by simp_all
  have commit: "SetDebugGesture g \<in> set (snd (predictWebcam s f))
      \<and> currentStableGesture (gesture (fst (predictWebcam s f))) = g"
    if "7 \<le> debounceCount (gesture s)"
    using debounce_repeat_commit [OF h(1) r that] h(2) by simp
  note fire = held_commit_frame(1,2) [OF assms(3,1,2)]
  show ?thesis
    using run step commit fire by simp
qed

text \<open>
  A fist held still for 40 frames (1.3 s) from the initial state dispatches the assemble
  action twice: at 1264 ms and again at 2089 ms.
\<close>

lemma held_fist_dispatches_twice:
  "count_list (snd (runFrames initialAppState (fistRun 40))) (SetTargetMorph 0) = 2"
  by (simp add: frame_eval)

lemma after_33_fists:
  "gesture (fst (runFrames initialAppState (fistRun 33)))
   = \<lparr>lastRawGesture = FIST, debounceCount = 32, currentStableGesture = FIST,
      lastActionTime = 1264\<rparr>"
  by (simp add: frame_eval)

theorem held_gesture_redispatches_witness:
  "debounceCount (gesture (fst (runFrames initialAppState (fistRun 33)))) = 32
   \<and> lastActionTime (gesture (fst (runFrames initialAppState (fistRun 33)))) = 1264
   \<and> debounceCount (gesture (fst (predictWebcam (fst (runFrames initialAppState (fistRun 33)))
        (handFrame 2089 FIST 0.5 0.5)))) = 33
   \<and> count_list (snd (predictWebcam (fst (runFrames initialAppState (fistRun 33)))
        (handFrame 2089 FIST 0.5 0.5))) (SetTargetMorph 0) = 1
   \<and> lastActionTime (gesture (fst (predictWebcam (fst (runFrames initialAppState (fistRun 33)))
        (handFrame 2089 FIST 0.5 0.5)))) = 2089
   \<and> debounceCount (gesture (fst (runFrames (fst (runFrames initialAppState (fistRun 33)))
        (fistRun 5)))) = 37"
proof -
  have a: "FIST \<noteq> UNKNOWN" "lastRawGesture (gesture (fst (runFrames initialAppState (fistRun 33)))) = FIST"
    "showsGesture FIST (handFrame 2089 FIST 0.5 0.5)" "\<forall>f' \<in> set (fistRun 5). showsGesture FIST f'"
    unfolding after_33_fists by (simp_all add: showsGesture_def handFrame_def fistRun_def)
  show ?thesis
    using held_gesture_redispatches [OF a] unfolding after_33_fists
    by (simp add: handFrame_def fistRun_def)
qed

section \<open>The wrist dead zone and the orbit targets\<close>

lemma predictWebcam_drag:
  "hand f = Some h \<Longrightarrow>
   drag (fst (predictWebcam s f)) = fst (wristStep (handTracking s) (drag s) h)"
  by (simp add: predictWebcam_def Let_def split: prod.splits)

lemma wristStep_dead_zone:
  assumes "\<bar>wristX h - px\<bar> < 0.003" "\<bar>wristY h - py\<bar> < 0.003"
  shows "wristStep (Some (px, py)) d h = (d, [SetIsHandRotating False])"
  using assms by (simp add: wristStep_def)

lemma pitch_clamp_range:
  "- 0.6 \<le> max (- 0.6) (min 0.6 (v::real))" "max (- 0.6) (min 0.6 (v::real)) \<le> 0.6"
  by (simp_all add: max_def min_def)

lemma wristStep_moves:
  assumes "\<not> (\<bar>wristX h - px\<bar> < 0.003 \<and> \<bar>wristY h - py\<bar> < 0.003)"
  shows "yawTarget (fst (wristStep (Some (px, py)) d h))
         = yawTarget d + (if \<bar>wristX h - px\<bar> < 0.003 then 0 else wristX h - px) * pi * 1.25"
    and "pitchTarget (fst (wristStep (Some (px, py)) d h))
         = max (- 0.6) (min 0.6
             (pitchTarget d + (if \<bar>wristY h - py\<bar> < 0.003 then 0 else wristY h - py) * pi * 0.6))"
proof -
  define dx where "dx = (if \<bar>wristX h - px\<bar> < 0.003 then 0 else wristX h - px)"
  define dy where "dy = (if \<bar>wristY h - py\<bar> < 0.003 then 0 else wristY h - py)"
  have nz: "dx \<noteq> 0 \<or> dy \<noteq> 0"
    using assms unfolding dx_def dy_def by auto
  have w: "wristStep (Some (px, py)) d h
           = (if dx \<noteq> 0 \<or> dy \<noteq> 0 then
               let d1 = d\<lparr>yawTarget := yawTarget d + dx * pi * 1.25\<rparr>;
                   d2 = d1\<lparr>pitchTarget := pitchTarget d1 + dy * pi * 0.6\<rparr>;
                   d3 = d2\<lparr>pitchTarget := max (- 0.6) (min 0.6 (pitchTarget d2))\<rparr>
               in (d3, [SetIsHandRotating True])
             else (d, [SetIsHandRotating False]))"
    unfolding wristStep_def dx_def dy_def by (simp only: option.case prod.case Let_def)
  show "yawTarget (fst (wristStep (Some (px, py)) d h))
         = yawTarget d + (if \<bar>wristX h - px\<bar> < 0.003 then 0 else wristX h - px) * pi * 1.25"
    unfolding w dx_def [symmetric] using nz by (simp add: Let_def)
  show "pitchTarget (fst (wristStep (Some (px, py)) d h))
         = max (- 0.6) (min 0.6
             (pitchTarget d + (if \<bar>wristY h - py\<bar> < 0.003 then 0 else wristY h - py) * pi * 0.6))"
    unfolding w dy_def [symmetric] using nz by (simp add: Let_def)
qed

text \<open>
  Claim C7 (amended). With a hand detected and a previous wrist position remembered, let
  \<open>ex\<close> and \<open>ey\<close> be the wrist deltas. If both are below 0.003 in absolute value (a delta of
  exactly 0.002 on both axes is such a case), the yaw and pitch targets are unchanged.
  Otherwise each delta below 0.003 in absolute value counts as 0, the yaw target grows by
  \<open>dx \<times> pi \<times> 1.25\<close> and the pitch target becomes the old one plus \<open>dy \<times> pi \<times> 0.6\<close>, clamped
  to \<open>\<plusminus>0.6\<close>. Only the pitch target is clamped; the yaw target is not (the claim as
  written clamps both, which the counterexample after the witness refutes).
\<close>

theorem wrist_dead_zone_and_targets:
  fixes s :: AppState and f :: Frame and h :: Hand and px py :: real
  defines "s' \<equiv> fst (predictWebcam s f)"
  defines "ex \<equiv> wristX h - px"
  defines "ey \<equiv> wristY h - py"
  assumes "handTracking s = Some (px, py)" "hand f = Some h"
  shows "(\<bar>ex\<bar> < 0.003 \<and> \<bar>ey\<bar> < 0.003 \<longrightarrow>
            yawTarget (drag s') = yawTarget (drag s) \<and> pitchTarget (drag s') = pitchTarget (drag s))
       \<and> (\<not> (\<bar>ex\<bar> < 0.003 \<and> \<bar>ey\<bar> < 0.003) \<longrightarrow>
            yawTarget (drag s')
              = yawTarget (drag s) + (if \<bar>ex\<bar> < 0.003 then 0 else ex) * pi * 1.25
            \<and> pitchTarget (drag s')
              = max (- 0.6) (min 0.6
                  (pitchTarget (drag s) + (if \<bar>ey\<bar> < 0.003 then 0 else ey) * pi * 0.6))
            \<and> - 0.6 \<le> pitchTarget (drag s') \<and> pitchTarget (drag s') \<le> 0.6)"
proof (intro conjI impI)
  note d = predictWebcam_drag [OF assms(5), of s, folded s'_def, unfolded assms(4)]
  {
    assume "\<bar>ex\<bar> < 0.003 \<and> \<bar>ey\<bar> < 0.003"
    then have "wristStep (Some (px, py)) (drag s) h = (drag s, [SetIsHandRotating False])"
      unfolding ex_def ey_def by (intro wristStep_dead_zone) simp_all
    then show "yawTarget (drag s') = yawTarget (drag s)" "pitchTarget (drag s') = pitchTarget (drag s)"
      unfolding d by simp_all
  }
  {
    assume "\<not> (\<bar>ex\<bar> < 0.003 \<and> \<bar>ey\<bar> < 0.003)"
    then have n: "\<not> (\<bar>wristX h - px\<bar> < 0.003 \<and> \<bar>wristY h - py\<bar> < 0.003)"
      unfolding ex_def ey_def .
    note m = wristStep_moves [OF n, of "drag s", folded ex_def ey_def d]
    show "yawTarget (drag s')
              = yawTarget (drag s) + (if \<bar>ex\<bar> < 0.003 then 0 else ex) * pi * 1.25"
      and "pitchTarget (drag s')
              = max (- 0.6) (min 0.6
                  (pitchTarget (drag s) + (if \<bar>ey\<bar> < 0.003 then 0 else ey) * pi * 0.6))"
      by (rule m)+
    show "- 0.6 \<le> pitchTarget (drag s')" "pitchTarget (drag s') \<le> 0.6"
      unfolding m(2) by (rule pitch_clamp_range)+
  }
qed

theorem wrist_dead_zone_and_targets_witness:
  "yawTarget (drag (fst (predictWebcam (initialAppState\<lparr>handTracking := Some (0.5, 0.5)\<rparr>)
      (handFrame 1000 UNKNOWN 0.502 0.502)))) = 0
   \<and> pitchTarget (drag (fst (predictWebcam (initialAppState\<lparr>handTracking := Some (0.5, 0.5)\<rparr>)
      (handFrame 1000 UNKNOWN 0.502 0.502)))) = 0
   \<and> yawTarget (drag (fst (predictWebcam (initialAppState\<lparr>handTracking := Some (0.5, 0.5)\<rparr>)
      (handFrame 1000 UNKNOWN 0.6 0.502)))) = pi / 8
   \<and> pitchTarget (drag (fst (predictWebcam (initialAppState\<lparr>handTracking := Some (0.5, 0.5)\<rparr>)
      (handFrame 1000 UNKNOWN 0.6 0.502)))) = 0"
proof -
  let ?s = "initialAppState\<lparr>handTracking := Some (0.5, 0.5)\<rparr>"
  have t: "handTracking ?s = Some (0.5, 0.5)"
    by simp
  have h: "hand (handFrame 1000 UNKNOWN wx wy)
           = Some \<lparr>rawGesture = UNKNOWN, wristX = wx, wristY = wy\<rparr>" for wx wy
    by (simp add: handFrame_def)
  show ?thesis
    using wrist_dead_zone_and_targets [OF t h, of "0.502" "0.502"]
      wrist_dead_zone_and_targets [OF t h, of "0.6" "0.502"]
    by (simp add: initialAppState_def)
qed

text \<open>
  A wrist that moves by 0.5 in \<open>x\<close> takes the yaw target from 0 to \<open>0.625 \<times> pi\<close>, beyond 0.6.
\<close>

theorem wrist_yaw_clamp_counterexample:
  "handTracking (initialAppState\<lparr>handTracking := Some (0, 0.5)\<rparr>) = Some (0, 0.5)
   \<and> yawTarget (drag (initialAppState\<lparr>handTracking := Some (0, 0.5)\<rparr>)) = 0
   \<and> yawTarget (drag (fst (predictWebcam (initialAppState\<lparr>handTracking := Some (0, 0.5)\<rparr>)
        (handFrame 1000 UNKNOWN 0.5 0.5)))) = 0.5 * pi * 1.25
   \<and> \<not> yawTarget (drag (fst (predictWebcam (initialAppState\<lparr>handTracking := Some (0, 0.5)\<rparr>)
        (handFrame 1000 UNKNOWN 0.5 0.5)))) \<le> 0.6"
proof -
  have "yawTarget (drag (fst (predictWebcam (initialAppState\<lparr>handTracking := Some (0, 0.5)\<rparr>)
        (handFrame 1000 UNKNOWN 0.5 0.5)))) = 0.5 * pi * 1.25"
    by (simp add: frame_eval)
  moreover have "0.6 < 0.5 * pi * 1.25"
    using pi_ge_two by simp
  ultimately show ?thesis
    by (simp add: initialAppState_def)
qed

section \<open>Settling of the morph value and the positions at full morph\<close>

lemma morphTick_far:
  "1 / 1000 < (19 / 20 :: real) ^ n \<Longrightarrow> morphTick 1 (1 - (19 / 20) ^ n) = 1 - (19 / 20) ^ Suc n"
  by (simp add: morphTick_def algebra_simps)

lemma morphTick_near:
  "(19 / 20 :: real) ^ n \<le> 1 / 1000 \<Longrightarrow> morphTick 1 (1 - (19 / 20) ^ n) = 1"
  by (simp add: morphTick_def)

lemma morphTick_fixed: "morphTick t t = t"
  by (simp add: morphTick_def)

lemma morphAfter_fixed: "morphAfter n t t = t"
  by (induction n) (simp_all add: morphTick_fixed)

lemma morphAfter_add: "morphAfter (m + n) t c = morphAfter n t (morphAfter m t c)"
  by (induction m arbitrary: c) simp_all

lemma pow_134: "1 / 1000 < (19 / 20 :: real) ^ 134"
  by (simp add: power_divide)

lemma pow_135: "(19 / 20 :: real) ^ 135 \<le> 1 / 1000"
  by (simp add: power_divide)

lemma pow_early: "n \<le> 134 \<Longrightarrow> 1 / 1000 < (19 / 20 :: real) ^ n"
proof -
  assume "n \<le> 134"
  then have "(19 / 20 :: real) ^ 134 \<le> (19 / 20) ^ n"
    by (intro power_decreasing) simp_all
  with pow_134 show ?thesis by linarith
qed

lemma morphAfter_early:
  "k + n \<le> 135 \<Longrightarrow> morphAfter n 1 (1 - (19 / 20) ^ k) = 1 - (19 / 20) ^ (k + n)"
proof (induction n arbitrary: k)
  case 0
  then show ?case by simp
next
  case (Suc n)
  have "k \<le> 134" using Suc.prems by simp
  then have "morphTick 1 (1 - (19 / 20) ^ k) = 1 - (19 / 20) ^ Suc k"
    by (intro morphTick_far pow_early)
  then show ?case
    using Suc.IH [of "Suc k"] Suc.prems by simp
qed

lemma morph_before_136: "n \<le> 135 \<Longrightarrow> morphAfter n 1 0 = 1 - (19 / 20) ^ n"
  using morphAfter_early [of 0 n] by simp

lemma morph_at_136: "morphAfter 136 1 0 = 1"
proof -
  have "morphAfter (135 + 1) 1 0 = morphAfter 1 1 (morphAfter 135 1 0)"
    by (rule morphAfter_add)
  also have "\<dots> = morphTick 1 (1 - (19 / 20) ^ 135)"
    by (simp add: morph_before_136)
  also have "\<dots> = 1"
    by (rule morphTick_near [OF pow_135])
  finally show ?thesis by simp
qed

lemma morph_settles:
  "(n < 136 \<longrightarrow> morphAfter n 1 0 < 1) \<and> (136 \<le> n \<longrightarrow> morphAfter n 1 0 = 1)"
proof (intro conjI impI)
  assume "n < 136"
  then have "morphAfter n 1 0 = 1 - (19 / 20) ^ n"
    by (intro morph_before_136) simp
  then show "morphAfter n 1 0 < 1" by simp
next
  assume "136 \<le> n"
  then obtain k where "n = 136 + k"
    using le_Suc_ex by blast
  then show "morphAfter n 1 0 = 1"
    by (simp add: morphAfter_add morph_at_136 morphAfter_fixed)
qed

lemma lerpVectors_full: "lerpVectors t s 1 = s"
  by (simp add: lerpVectors_def vec_def)

lemma updatePosition_full:
  "updatePosition 1 time i t s isOuter = add s (idleOffset time i s isOuter)"
  by (simp add: updatePosition_def idleOffset_def eased_1 lerpVectors_full Let_def add_def
      addScaledVector_def multiplyScalar_def formationCenter_def vec_def)

lemma vlength_normalize: "vlength (normalize v) \<le> 1"
proof (cases "vlength v = 0")
  case True
  then show ?thesis
    by (simp add: normalize_def multiplyScalar_def vec_def vlength_def)
next
  case False
  define l where "l = vlength v"
  have l: "0 < l"
    using False unfolding l_def vlength_def by (simp add: less_le)
  have sq: "vx v * vx v + vy v * vy v + vz v * vz v = l\<^sup>2"
    unfolding l_def vlength_def
    by (simp add: real_sqrt_pow2 add_nonneg_nonneg)
  have "vx v / l * (vx v / l) + vy v / l * (vy v / l) + vz v / l * (vz v / l)
        = (vx v * vx v + vy v * vy v + vz v * vz v) / l\<^sup>2"
    by (simp add: power2_eq_square add_divide_distrib)
  also have "\<dots> = 1"
    using l by (simp add: sq)
  finally have "vlength (vec (vx v / l) (vy v / l) (vz v / l)) = 1"
    by (simp add: vlength_def vec_def)
  then show ?thesis
    using False by (simp add: normalize_def multiplyScalar_def l_def)
qed

lemma distance_add: "distanceTo (add s w) s = vlength w"
  by (simp add: distanceTo_def add_def vec_def vlength_def)

lemma vlength_scaled: "vlength (multiplyScalar v c) = vlength v * \<bar>c\<bar>"
proof -
  have "vx v * c * (vx v * c) + vy v * c * (vy v * c) + vz v * c * (vz v * c)
        = (vx v * vx v + vy v * vy v + vz v * vz v) * c\<^sup>2"
    by (simp add: power2_eq_square algebra_simps)
  then show ?thesis
    by (simp add: vlength_def multiplyScalar_def vec_def real_sqrt_mult)
qed

lemma idleOffset_small: "vlength (idleOffset time i s isOuter) \<le> 0.05"
proof (cases isOuter)
  case True
  define a where "a = time * 0.4 + real i * 0.1"
  define b where "b = time * 0.3 + real i * 0.2"
  have "(sin a)\<^sup>2 \<le> 1" "(cos b)\<^sup>2 \<le> 1"
    by (simp_all add: abs_square_le_1)
  then have "sin a * 0.02 * (sin a * 0.02) + cos b * 0.02 * (cos b * 0.02) + 0 * 0
             \<le> (0.05::real)\<^sup>2"
    by (simp add: power2_eq_square)
  then have "sqrt (sin a * 0.02 * (sin a * 0.02) + cos b * 0.02 * (cos b * 0.02) + 0 * 0) \<le> 0.05"
    by (intro real_le_lsqrt) simp_all
  then show ?thesis
    using True by (simp add: idleOffset_def vlength_def vec_def a_def b_def)
next
  case False
  define c where "c = 0.05 * sin (time * 2.0 + real i * 0.1)"
  have "\<bar>sin (time * 2.0 + real i * 0.1)\<bar> \<le> 1"
    by simp
  then have c: "\<bar>c\<bar> \<le> 0.05"
    unfolding c_def abs_mult by simp
  have "vlength (normalize (subVectors s formationCenter)) * \<bar>c\<bar> \<le> 1 * 0.05"
    using vlength_normalize c by (intro mult_mono) simp_all
  then show ?thesis
    using False by (simp add: idleOffset_def vlength_scaled c_def)
qed

lemma update_full:
  assumes "update m 1 time = Some ts" "i < meshCount m"
  shows "instPosition (ts ! i)
         = add (scatterPositions m ! i)
             (idleOffset time i (scatterPositions m ! i) (i < length (haloFlags m) \<and> haloFlags m ! i))"
  using assms by (auto simp: update_def updatePosition_full split: if_splits)

text \<open>
  Claim C6 (amended). Starting from a morph value of 0 with the target at 1, the smoothing
  step reaches exactly 1 at tick 136: the value is below 1 on every earlier tick and stays
  1 on every later one. At that value \<open>update\<close> writes, for every instance, its scatter
  coordinate plus the idle offset of the instance (for a halo point the drift
  \<open>(0.02 \<times> sin (0.4 t + 0.1 i), 0.02 \<times> cos (0.3 t + 0.2 i), 0)\<close>, for a core point
  \<open>0.05 \<times> sin (2 t + 0.1 i)\<close> along the unit direction from the formation center to the
  scatter coordinate), so the written position is within 0.05 of the scatter coordinate.
  The claim as written (the position equals the scatter coordinate) fails, as the
  counterexample after the witness shows.
\<close>

theorem morph_settles_at_scatter_plus_idle:
  "(\<forall>n. (n < 136 \<longrightarrow> morphAfter n 1 0 < 1) \<and> (136 \<le> n \<longrightarrow> morphAfter n 1 0 = 1))
   \<and> (update m (morphAfter 136 1 0) time = Some ts \<and> i < meshCount m \<longrightarrow>
        instPosition (ts ! i)
          = add (scatterPositions m ! i)
              (idleOffset time i (scatterPositions m ! i)
                 (i < length (haloFlags m) \<and> haloFlags m ! i))
        \<and> distanceTo (instPosition (ts ! i)) (scatterPositions m ! i) \<le> 0.05)"
proof (intro conjI allI impI)
  fix n
  show "morphAfter n 1 0 < 1" if "n < 136"
    using that morph_settles [of n] by simp
  show "morphAfter n 1 0 = 1" if "136 \<le> n"
    using that morph_settles [of n] by simp
next
  assume a: "update m (morphAfter 136 1 0) time = Some ts \<and> i < meshCount m"
  then show p: "instPosition (ts ! i)
          = add (scatterPositions m ! i)
              (idleOffset time i (scatterPositions m ! i)
                 (i < length (haloFlags m) \<and> haloFlags m ! i))"
    unfolding morph_at_136 by (intro update_full) simp_all
  show "distanceTo (instPosition (ts ! i)) (scatterPositions m ! i) \<le> 0.05"
    unfolding p distance_add by (rule idleOffset_small)
qed

lemma oneHaloInstance_update:
  "update oneHaloInstance 1 0
   = Some [\<lparr>instPosition = vec 1 (1 + 0.02) 1, rotationX = 0, rotationY = 0\<rparr>]"
  by (simp add: update_def oneHaloInstance_def updatePosition_def eased_def lerpVectors_def
      vec_def Let_def)

theorem morph_settles_at_scatter_plus_idle_witness:
  "morphAfter 136 1 0 = 1
   \<and> update oneHaloInstance (morphAfter 136 1 0) 0
       = Some [\<lparr>instPosition = vec 1 (1 + 0.02) 1, rotationX = 0, rotationY = 0\<rparr>]
   \<and> distanceTo (vec 1 (1 + 0.02) 1) (vec 1 1 1) \<le> 0.05"
proof -
  have u: "update oneHaloInstance (morphAfter 136 1 0) 0
       = Some [\<lparr>instPosition = vec 1 (1 + 0.02) 1, rotationX = 0, rotationY = 0\<rparr>]"
    unfolding morph_at_136 by (rule oneHaloInstance_update)
  have i: "(0::nat) < meshCount oneHaloInstance"
    by (simp add: oneHaloInstance_def)
  let ?ts = "[\<lparr>instPosition = vec 1 (1 + 0.02) 1, rotationX = 0, rotationY = 0\<rparr>]"
  have "distanceTo (instPosition (?ts ! 0)) (scatterPositions oneHaloInstance ! 0) \<le> 0.05"
    using morph_settles_at_scatter_plus_idle [of oneHaloInstance 0 ?ts 0] u i by blast
  then have "distanceTo (vec 1 (1 + 0.02) 1) (vec 1 1 1) \<le> 0.05"
    by (simp add: oneHaloInstance_def)
  then show ?thesis
    using u morph_at_136 by simp
qed

text \<open>
  One halo instance with scatter coordinate \<open>(1, 1, 1)\<close>, at time 0 and full morph: the
  position written is \<open>(1, 1.02, 1)\<close>.
\<close>

theorem morph_scatter_position_counterexample:
  "morphAfter 136 1 0 = 1
   \<and> scatterPositions oneHaloInstance = [vec 1 1 1]
   \<and> update oneHaloInstance (morphAfter 136 1 0) 0
       = Some [\<lparr>instPosition = vec 1 (1 + 0.02) 1, rotationX = 0, rotationY = 0\<rparr>]
   \<and> vec 1 (1 + 0.02) 1 \<noteq> vec 1 1 1"
  unfolding morph_at_136 using oneHaloInstance_update
  by (simp add: oneHaloInstance_def vec_def)

section \<open>The shader against the instance engine\<close>

lemma mix_eq_lerpVectors: "mix a b w = lerpVectors a b w"
  by (simp add: mix_def lerpVectors_def vec_def algebra_simps)

text \<open>The engine's position in each of its three branches.\<close>

lemma updatePosition_low:
  "m \<le> 0.01 \<Longrightarrow> updatePosition m time i p s h = lerpVectors p s (eased m)"
  by (simp add: updatePosition_def Let_def)

lemma updatePosition_halo:
  assumes "0.01 < m"
  shows "updatePosition m time i p s True
         = vec (vx (lerpVectors p s (eased m)) + sin (time * 0.4 + real i * 0.1) * 0.02 * eased m)
               (vy (lerpVectors p s (eased m)) + cos (time * 0.3 + real i * 0.2) * 0.02 * eased m)
               (vz (lerpVectors p s (eased m)))"
  using assms by (simp add: updatePosition_def Let_def vec_def)

lemma updatePosition_core:
  assumes "0.01 < m"
  shows "updatePosition m time i p s False
         = addScaledVector (lerpVectors p s (eased m)) (normalize (subVectors s formationCenter))
             (0.05 * eased m * sin (time * 2.0 + real i * 0.1))"
  using assms by (simp add: updatePosition_def Let_def formationCenter_def)

text \<open>
  The shader's position in each of its three branches, over the position \<open>B\<close> it has
  after the breathing step.
\<close>

lemma shaderPosition_branches:
  fixes m time seed aHalo :: real and p s :: Vector3
  defines "L \<equiv> lerpVectors p s (eased m)"
  defines "b \<equiv> (if m < 0.99 then sin (time * 1.2 + vy L * 0.5) * 0.02 * (1 - eased m) else 0)"
  defines "B \<equiv> vec (vx L + b) (vy L) (vz L + b)"
  shows "m \<le> 0.01 \<Longrightarrow> shaderPosition m time p s seed aHalo = B"
    and "0.01 < m \<Longrightarrow> 0.5 < aHalo \<Longrightarrow>
         shaderPosition m time p s seed aHalo
         = vec (vx B + sin (time * 0.4 + seed * 12) * 0.4 * eased m)
               (vy B + cos (time * 0.3 + seed * 25) * 0.5 * 0.4 * eased m)
               (vz B + sin (time * 0.2 + vx B) * 0.4 * eased m)"
    and "0.01 < m \<Longrightarrow> \<not> 0.5 < aHalo \<Longrightarrow>
         shaderPosition m time p s seed aHalo
         = add B (multiplyScalar
                    (if vlength (subVectors B formationCenter) < 0.001 then vec 0 1 0
                     else glslNormalize (subVectors B formationCenter))
                    (0.05 * sin (time * 1.5 + seed * 10 + vy B) * eased m))"
proof -
  define mixed1 where "mixed1 =
     (if m < 0.99 then
        L\<lparr>vx := vx L + sin (time * 1.2 + vy L * 0.5) * 0.02 * (1 - eased m),
          vz := vz L + sin (time * 1.2 + vy L * 0.5) * 0.02 * (1 - eased m)\<rparr>
      else L)"
  have mB: "mixed1 = B"
    unfolding mixed1_def B_def b_def by (simp add: vec_def)
  have sh: "shaderPosition m time p s seed aHalo
     = (if m > 0.01 then
           if aHalo > 0.5 then
             add mixed1 (multiplyScalar
                (multiplyScalar (vec (sin (time * 0.4 + seed * 12.0))
                                     (cos (time * 0.3 + seed * 25.0) * 0.5)
                                     (sin (time * 0.2 + vx mixed1))) 0.4) (eased m))
           else
             add mixed1 (multiplyScalar
                (if vlength (subVectors mixed1 formationCenter) < 0.001 then vec 0.0 1.0 0.0
                 else glslNormalize (subVectors mixed1 formationCenter))
                (0.05 * sin (time * 1.5 + seed * 10.0 + vy mixed1) * eased m))
        else mixed1)"
    unfolding shaderPosition_def mixed1_def L_def formationCenter_def
    by (simp add: Let_def mix_eq_lerpVectors easeInOutCubic_eq_eased)
  show "shaderPosition m time p s seed aHalo = B" if "m \<le> 0.01"
    using that unfolding sh mB by simp
  show "shaderPosition m time p s seed aHalo
         = vec (vx B + sin (time * 0.4 + seed * 12) * 0.4 * eased m)
               (vy B + cos (time * 0.3 + seed * 25) * 0.5 * 0.4 * eased m)
               (vz B + sin (time * 0.2 + vx B) * 0.4 * eased m)"
    if "0.01 < m" "0.5 < aHalo"
    using that unfolding sh mB by (simp add: add_def multiplyScalar_def vec_def)
  show "shaderPosition m time p s seed aHalo
         = add B (multiplyScalar
                    (if vlength (subVectors B formationCenter) < 0.001 then vec 0 1 0
                     else glslNormalize (subVectors B formationCenter))
                    (0.05 * sin (time * 1.5 + seed * 10 + vy B) * eased m))"
    if "0.01 < m" "\<not> 0.5 < aHalo"
    using that unfolding sh mB by simp
qed

text \<open>
  Claim C4 (amended). The vertex shader and the instance engine compute the same eased
  interpolation: \<^verbatim>\<open>easeInOutCubic\<close> equals \<open>eased\<close> for every morph value, and the
  shader's \<^verbatim>\<open>mix(position, aScatterPosition, easedMorph)\<close> equals the engine's
  \<^verbatim>\<open>lerpVectors(t, s, eased)\<close> for the same formation pair; call it \<open>L\<close>. The idle motion
  each adds to \<open>L\<close> is its own, for every morph value \<open>m\<close>, time \<open>t\<close>, seed, index \<open>i\<close> and
  halo flag:

  \<^item> the engine returns \<open>L\<close> when \<open>m \<le> 0.01\<close>; above that, for a halo instance it adds
    \<open>0.02 \<times> eased \<times> sin (0.4 t + 0.1 i)\<close> to \<open>x\<close> and \<open>0.02 \<times> eased \<times> cos (0.3 t + 0.2 i)\<close>
    to \<open>y\<close> and leaves \<open>z\<close>; for a core instance it adds \<open>0.05 \<times> eased \<times> sin (2 t + 0.1 i)\<close>
    times the unit direction from the formation center to the scatter position;

  \<^item> the shader first adds the breathing offset \<open>b = sin (1.2 t + 0.5 L.y) \<times> 0.02 \<times> (1 - eased)\<close>
    to \<open>x\<close> and \<open>z\<close> while \<open>m < 0.99\<close> (nothing from 0.99 on), which gives \<open>B\<close>, and returns
    \<open>B\<close> when \<open>m \<le> 0.01\<close>; above that, for a halo point (\<open>aHalo > 0.5\<close>) it adds
    \<open>0.4 \<times> eased\<close> times \<open>(sin (0.4 t + 12 seed), 0.5 cos (0.3 t + 25 seed), sin (0.2 t + B.x))\<close>,
    the third component phased by the current \<open>x\<close> and not by the seed; for a core point it
    adds \<open>0.05 \<times> sin (1.5 t + 10 seed + B.y) \<times> eased\<close> times the direction from the formation
    center to \<open>B\<close> (GLSL's \<^verbatim>\<open>normalize\<close>, or \<open>(0, 1, 0)\<close> when \<open>B\<close> is within 0.001 of the
    center).

  The two positions are therefore not equal in general, neither for halo points nor for
  core points, as the counterexample after the witness shows.
\<close>

theorem shader_and_engine_positions:
  fixes m time seed aHalo :: real and p s :: Vector3 and i :: nat and h :: bool
  defines "L \<equiv> lerpVectors p s (eased m)"
  defines "b \<equiv> (if m < 0.99 then sin (time * 1.2 + vy L * 0.5) * 0.02 * (1 - eased m) else 0)"
  defines "B \<equiv> vec (vx L + b) (vy L) (vz L + b)"
  shows "easeInOutCubic m = eased m
       \<and> mix p s (easeInOutCubic m) = L
       \<and> (m \<le> 0.01 \<longrightarrow> updatePosition m time i p s h = L)
       \<and> (0.01 < m \<and> h \<longrightarrow>
            updatePosition m time i p s h
            = vec (vx L + sin (time * 0.4 + real i * 0.1) * 0.02 * eased m)
                  (vy L + cos (time * 0.3 + real i * 0.2) * 0.02 * eased m)
                  (vz L))
       \<and> (0.01 < m \<and> \<not> h \<longrightarrow>
            updatePosition m time i p s h
            = addScaledVector L (normalize (subVectors s formationCenter))
                (0.05 * eased m * sin (time * 2.0 + real i * 0.1)))
       \<and> (m \<le> 0.01 \<longrightarrow> shaderPosition m time p s seed aHalo = B)
       \<and> (0.01 < m \<and> 0.5 < aHalo \<longrightarrow>
            shaderPosition m time p s seed aHalo
            = vec (vx B + sin (time * 0.4 + seed * 12) * 0.4 * eased m)
                  (vy B + cos (time * 0.3 + seed * 25) * 0.5 * 0.4 * eased m)
                  (vz B + sin (time * 0.2 + vx B) * 0.4 * eased m))
       \<and> (0.01 < m \<and> \<not> 0.5 < aHalo \<longrightarrow>
            shaderPosition m time p s seed aHalo
            = add B (multiplyScalar
                       (if vlength (subVectors B formationCenter) < 0.001 then vec 0 1 0
                        else glslNormalize (subVectors B formationCenter))
                       (0.05 * sin (time * 1.5 + seed * 10 + vy B) * eased m)))"
proof (intro conjI impI)
  show "easeInOutCubic m = eased m"
    by (rule easeInOutCubic_eq_eased)
  show "mix p s (easeInOutCubic m) = L"
    unfolding L_def by (simp add: mix_eq_lerpVectors easeInOutCubic_eq_eased)
  show "updatePosition m time i p s h = L" if "m \<le> 0.01"
    unfolding L_def using that by (rule updatePosition_low)
  show "updatePosition m time i p s h
            = vec (vx L + sin (time * 0.4 + real i * 0.1) * 0.02 * eased m)
                  (vy L + cos (time * 0.3 + real i * 0.2) * 0.02 * eased m)
                  (vz L)" if "0.01 < m \<and> h"
    unfolding L_def using that updatePosition_halo [of m time i p s] by simp
  show "updatePosition m time i p s h
            = addScaledVector L (normalize (subVectors s formationCenter))
                (0.05 * eased m * sin (time * 2.0 + real i * 0.1))" if "0.01 < m \<and> \<not> h"
    unfolding L_def using that updatePosition_core [of m time i p s] by simp
  show "shaderPosition m time p s seed aHalo = B" if "m \<le> 0.01"
    unfolding B_def b_def L_def using that by (rule shaderPosition_branches(1))
  show "shaderPosition m time p s seed aHalo
            = vec (vx B + sin (time * 0.4 + seed * 12) * 0.4 * eased m)
                  (vy B + cos (time * 0.3 + seed * 25) * 0.5 * 0.4 * eased m)
                  (vz B + sin (time * 0.2 + vx B) * 0.4 * eased m)" if "0.01 < m \<and> 0.5 < aHalo"
    unfolding B_def b_def L_def using that by (intro shaderPosition_branches(2)) simp_all
  show "shaderPosition m time p s seed aHalo
            = add B (multiplyScalar
                       (if vlength (subVectors B formationCenter) < 0.001 then vec 0 1 0
                        else glslNormalize (subVectors B formationCenter))
                       (0.05 * sin (time * 1.5 + seed * 10 + vy B) * eased m))"
    if "0.01 < m \<and> \<not> 0.5 < aHalo"
    unfolding B_def b_def L_def using that by (intro shaderPosition_branches(3)) simp_all
qed

lemma eased_0: "eased 0 = 0"
  by (simp add: eased_def)

lemma sin_6_5_pos: "0 < sin (6 / 5 :: real)"
  using pi_ge_two by (intro sin_gt_zero) simp_all

lemma halo_sample_shader: "shaderPosition 1 0 (vec 0 0 0) (vec 0 0 0) 0 1 = vec 0 0.2 0"
  by (simp add: shaderPosition_def easeInOutCubic_def mix_def add_def multiplyScalar_def
      vec_def Let_def)

lemma halo_sample_engine: "updatePosition 1 0 0 (vec 0 0 0) (vec 0 0 0) True = vec 0 0.02 0"
  by (simp add: updatePosition_def eased_def lerpVectors_def vec_def Let_def)

lemma core_sample_engine:
  "updatePosition 1 0 0 (vec 0 1.2 0) (vec 0 1.2 0) False = vec 0 1.2 0"
  by (simp add: updatePosition_def eased_def lerpVectors_def addScaledVector_def vec_def
      Let_def)

lemma core_sample_shader:
  "shaderPosition 1 0 (vec 0 1.2 0) (vec 0 1.2 0) 0 0 = vec 0 (1.2 + 0.05 * sin 1.2) 0"
  by (simp add: shaderPosition_def easeInOutCubic_def mix_def add_def multiplyScalar_def
      subVectors_def vlength_def glslNormalize_def SCATTER_CENTER_Y_def vec_def Let_def)

theorem shader_and_engine_positions_witness:
  "updatePosition 0 0 0 (vec 1 2 3) (vec 4 5 6) True = vec 1 2 3
   \<and> shaderPosition 0 0 (vec 1 2 3) (vec 4 5 6) 0 1
       = vec (1 + sin 1 * 0.02) 2 (3 + sin 1 * 0.02)
   \<and> updatePosition 1 0 0 (vec 0 0 0) (vec 0 0 0) True = vec 0 0.02 0
   \<and> shaderPosition 1 0 (vec 0 0 0) (vec 0 0 0) 0 1 = vec 0 0.2 0
   \<and> updatePosition 1 0 0 (vec 0 1.2 0) (vec 0 1.2 0) False
       = addScaledVector (vec 0 1.2 0) (normalize (subVectors (vec 0 1.2 0) formationCenter)) 0
   \<and> shaderPosition 1 0 (vec 0 1.2 0) (vec 0 1.2 0) 0 0 = vec 0 (1.2 + 0.05 * sin 1.2) 0"
proof -
  have l: "lerpVectors (vec 1 2 3) (vec 4 5 6) 0 = vec 1 2 3"
    "lerpVectors (vec 0 0 0) (vec 0 0 0) 1 = vec 0 0 0"
    "lerpVectors (vec 0 1.2 0) (vec 0 1.2 0) 1 = vec 0 1.2 0"
    by (simp_all add: lerpVectors_def vec_def)
  note low = shader_and_engine_positions [where m = 0 and p = "vec 1 2 3" and s = "vec 4 5 6"
      and time = 0 and i = 0 and h = True and seed = 0 and aHalo = 1, unfolded eased_0 l]
  note halo = shader_and_engine_positions [where m = 1 and p = "vec 0 0 0" and s = "vec 0 0 0"
      and time = 0 and i = 0 and h = True and seed = 0 and aHalo = 1, unfolded eased_1 l]
  note core = shader_and_engine_positions [where m = 1 and p = "vec 0 1.2 0"
      and s = "vec 0 1.2 0" and time = 0 and i = 0 and h = False and seed = 0 and aHalo = 0,
      unfolded eased_1 l]
  have "updatePosition 0 0 0 (vec 1 2 3) (vec 4 5 6) True = vec 1 2 3"
    "shaderPosition 0 0 (vec 1 2 3) (vec 4 5 6) 0 1 = vec (1 + sin 1 * 0.02) 2 (3 + sin 1 * 0.02)"
    using low by (simp_all add: vec_def)
  moreover have "updatePosition 1 0 0 (vec 0 0 0) (vec 0 0 0) True = vec 0 0.02 0"
    "shaderPosition 1 0 (vec 0 0 0) (vec 0 0 0) 0 1 = vec 0 0.2 0"
    using halo by (simp_all add: vec_def)
  moreover have "updatePosition 1 0 0 (vec 0 1.2 0) (vec 0 1.2 0) False
       = addScaledVector (vec 0 1.2 0) (normalize (subVectors (vec 0 1.2 0) formationCenter)) 0"
    using core by simp
  moreover have "shaderPosition 1 0 (vec 0 1.2 0) (vec 0 1.2 0) 0 0
       = vec 0 (1.2 + 0.05 * sin 1.2) 0"
    using core
    by (simp add: vec_def add_def multiplyScalar_def subVectors_def vlength_def
        glslNormalize_def SCATTER_CENTER_Y_def formationCenter_def)
  ultimately show ?thesis
    by blast
qed

text \<open>
  At morph 1, time 0, seed 0 and index 0: a halo point whose two formation positions are
  the origin is drawn by the shader at \<open>(0, 0.2, 0)\<close> and placed by the engine at
  \<open>(0, 0.02, 0)\<close>; a core point whose two formation positions are \<open>(0, 1.2, 0)\<close> is left
  there by the engine, whose pulse \<open>sin 0\<close> vanishes, and raised by \<open>0.05 sin 1.2\<close> by the
  shader.
\<close>

theorem shader_differs_from_engine_counterexample:
  "shaderPosition 1 0 (vec 0 0 0) (vec 0 0 0) 0 1 = vec 0 0.2 0
   \<and> updatePosition 1 0 0 (vec 0 0 0) (vec 0 0 0) True = vec 0 0.02 0
   \<and> shaderPosition 1 0 (vec 0 0 0) (vec 0 0 0) 0 1
       \<noteq> updatePosition 1 0 0 (vec 0 0 0) (vec 0 0 0) True
   \<and> updatePosition 1 0 0 (vec 0 1.2 0) (vec 0 1.2 0) False = vec 0 1.2 0
   \<and> vy (shaderPosition 1 0 (vec 0 1.2 0) (vec 0 1.2 0) 0 0) = 1.2 + 0.05 * sin 1.2
   \<and> shaderPosition 1 0 (vec 0 1.2 0) (vec 0 1.2 0) 0 0
       \<noteq> updatePosition 1 0 0 (vec 0 1.2 0) (vec 0 1.2 0) False"
proof -
  have "vec 0 (1.2 + 0.05 * sin 1.2) 0 \<noteq> vec 0 1.2 0"
    using sin_6_5_pos by (simp add: vec_def)
  then show ?thesis
    unfolding halo_sample_shader halo_sample_engine core_sample_engine core_sample_shader
    by (simp add: vec_def)
qed

section \<open>Photo focus selection\<close>

text \<open>What the scan returns: the running best, or the first nearest photo.\<close>

lemma scanPhotos_best:
  "scanPhotos camPos ps bestDist bestId = (bd, bi) \<Longrightarrow>
     (bd = bestDist \<and> bi = bestId \<and>
        (\<forall>q \<in> set ps. \<not> (case bestDist of None \<Rightarrow> True | Some b \<Rightarrow> distanceTo (worldPos q) camPos < b)))
     \<or> (\<exists>p \<in> set ps. bi = int (idx p) \<and> bd = Some (distanceTo (worldPos p) camPos)
          \<and> (case bestDist of None \<Rightarrow> True | Some b \<Rightarrow> distanceTo (worldPos p) camPos < b)
          \<and> (\<forall>q \<in> set ps. distanceTo (worldPos p) camPos \<le> distanceTo (worldPos q) camPos))"
proof (induction ps arbitrary: bestDist bestId)
  case Nil
  then show ?case by simp
next
  case (Cons a ps)
  let ?d = "distanceTo (worldPos a) camPos"
  show ?case
  proof (cases "case bestDist of None \<Rightarrow> True | Some b \<Rightarrow> ?d < b")
    case True
    then have "scanPhotos camPos ps (Some ?d) (int (idx a)) = (bd, bi)"
      using Cons.prems by (simp add: Let_def)
    from Cons.IH [OF this] show ?thesis
    proof
      assume "bd = Some ?d \<and> bi = int (idx a) \<and>
        (\<forall>q \<in> set ps. \<not> (case Some ?d of None \<Rightarrow> True | Some b \<Rightarrow> distanceTo (worldPos q) camPos < b))"
      then have "bi = int (idx a)" "bd = Some (distanceTo (worldPos a) camPos)"
        "\<forall>q \<in> set (a # ps). distanceTo (worldPos a) camPos \<le> distanceTo (worldPos q) camPos"
        by (auto simp: not_less)
      then show ?thesis
        using True by (intro disjI2) auto
    next
      assume "\<exists>p \<in> set ps. bi = int (idx p) \<and> bd = Some (distanceTo (worldPos p) camPos)
          \<and> (case Some ?d of None \<Rightarrow> True | Some b \<Rightarrow> distanceTo (worldPos p) camPos < b)
          \<and> (\<forall>q \<in> set ps. distanceTo (worldPos p) camPos \<le> distanceTo (worldPos q) camPos)"
      then obtain p where p: "p \<in> set ps" "bi = int (idx p)"
        "bd = Some (distanceTo (worldPos p) camPos)" "distanceTo (worldPos p) camPos < ?d"
        "\<forall>q \<in> set ps. distanceTo (worldPos p) camPos \<le> distanceTo (worldPos q) camPos"
        by auto
      have "case bestDist of None \<Rightarrow> True | Some b \<Rightarrow> distanceTo (worldPos p) camPos < b"
        using True p(4) by (auto split: option.splits)
      moreover have "\<forall>q \<in> set (a # ps). distanceTo (worldPos p) camPos \<le> distanceTo (worldPos q) camPos"
        using p(4,5) by auto
      ultimately show ?thesis
        using p(1,2,3) by (intro disjI2) auto
    qed
  next
    case False
    then have "scanPhotos camPos ps bestDist bestId = (bd, bi)"
      using Cons.prems by (simp add: Let_def)
    from Cons.IH [OF this] show ?thesis
    proof
      assume "bd = bestDist \<and> bi = bestId \<and>
        (\<forall>q \<in> set ps. \<not> (case bestDist of None \<Rightarrow> True | Some b \<Rightarrow> distanceTo (worldPos q) camPos < b))"
      then show ?thesis
        using False by (intro disjI1) auto
    next
      assume "\<exists>p \<in> set ps. bi = int (idx p) \<and> bd = Some (distanceTo (worldPos p) camPos)
          \<and> (case bestDist of None \<Rightarrow> True | Some b \<Rightarrow> distanceTo (worldPos p) camPos < b)
          \<and> (\<forall>q \<in> set ps. distanceTo (worldPos p) camPos \<le> distanceTo (worldPos q) camPos)"
      then obtain p where p: "p \<in> set ps" "bi = int (idx p)"
        "bd = Some (distanceTo (worldPos p) camPos)"
        "case bestDist of None \<Rightarrow> True | Some b \<Rightarrow> distanceTo (worldPos p) camPos < b"
        "\<forall>q \<in> set ps. distanceTo (worldPos p) camPos \<le> distanceTo (worldPos q) camPos"
        by auto
      have "distanceTo (worldPos p) camPos \<le> ?d"
        using False p(4) by (auto split: option.splits)
      then have "\<forall>q \<in> set (a # ps). distanceTo (worldPos p) camPos \<le> distanceTo (worldPos q) camPos"
        using p(5) by auto
      then show ?thesis
        using p(1,2,3,4) by (intro disjI2) auto
    qed
  qed
qed

lemma scanPhotos_nearest:
  assumes "photos \<noteq> []"
  shows "\<exists>p \<in> set photos. snd (scanPhotos camPos photos None (- 1)) = int (idx p)
           \<and> (\<forall>q \<in> set photos. distanceTo (worldPos p) camPos \<le> distanceTo (worldPos q) camPos)"
proof -
  obtain bd bi where r: "scanPhotos camPos photos None (- 1) = (bd, bi)"
    by (cases "scanPhotos camPos photos None (- 1)") auto
  from scanPhotos_best [OF r] assms show ?thesis
    unfolding r by (cases photos) auto
qed

lemma focusTick_selects:
  assumes "active fs" "focusId fs = None" "photos \<noteq> []"
  shows "\<exists>p \<in> set photos. focusTick fs photos (Some camPos) = fs\<lparr>focusId := Some (int (idx p))\<rparr>
           \<and> (\<forall>q \<in> set photos. distanceTo (worldPos p) camPos \<le> distanceTo (worldPos q) camPos)"
proof -
  obtain p where p: "p \<in> set photos" "snd (scanPhotos camPos photos None (- 1)) = int (idx p)"
    "\<forall>q \<in> set photos. distanceTo (worldPos p) camPos \<le> distanceTo (worldPos q) camPos"
    using scanPhotos_nearest [OF assms(3)] by blast
  have "focusTick fs photos (Some camPos) = fs\<lparr>focusId := Some (int (idx p))\<rparr>"
    using assms p(2) by (auto simp: focusTick_def split: prod.splits)
  with p show ?thesis by blast
qed

lemma focusTick_holds:
  "active fs \<Longrightarrow> focusId fs = Some k \<Longrightarrow> focusTick fs photos camera = fs"
  by (simp add: focusTick_def split: option.splits)

lemma focusTicks_hold:
  "active fs \<Longrightarrow> focusId fs = Some k \<Longrightarrow> focusTicks fs ticks = fs"
  by (induction ticks) (auto simp: focusTick_holds)

lemma focusTick_clears:
  "\<not> active fs \<Longrightarrow> focusTick fs photos camera = fs\<lparr>focusId := None\<rparr>"
  by (simp add: focusTick_def split: option.splits)

lemma one_focused_slot:
  "distinct (map idx photos) \<Longrightarrow>
   length (filter (\<lambda>p. focusId fs = Some (int (idx p))) photos) \<le> 1"
proof (induction photos)
  case Nil
  then show ?case by simp
next
  case (Cons a photos)
  show ?case
  proof (cases "focusId fs = Some (int (idx a))")
    case True
    have "filter (\<lambda>p. focusId fs = Some (int (idx p))) photos = []"
      using Cons.prems True by (auto simp: filter_empty_conv)
    then show ?thesis using True by simp
  next
    case False
    then show ?thesis using Cons by simp
  qed
qed

text \<open>
  Claim C8. On a tick where the focus state is active, no identity is focused, at least
  one photo slot exists (and the camera exists), the tick focuses the \<^verbatim>\<open>idx\<close> of a slot
  that is nearest to the camera, and any run of later ticks leaves that same identity
  focused (the active flag still set). A tick with the flag set and an identity focused
  changes nothing, whatever the photos and the camera are; with distinct \<^verbatim>\<open>idx\<close> values
  at most one slot carries the focused identity; and a tick with the flag cleared
  clears the focused identity.
\<close>

theorem focus_selects_nearest_once:
  "(active fs \<and> focusId fs = None \<and> photos \<noteq> [] \<longrightarrow>
      (\<exists>p \<in> set photos.
          focusTick fs photos (Some camPos) = fs\<lparr>focusId := Some (int (idx p))\<rparr>
          \<and> (\<forall>q \<in> set photos. distanceTo (worldPos p) camPos \<le> distanceTo (worldPos q) camPos)
          \<and> focusTicks (focusTick fs photos (Some camPos)) ticks
              = fs\<lparr>focusId := Some (int (idx p))\<rparr>))
   \<and> (active fs' \<and> focusId fs' = Some k \<longrightarrow> focusTick fs' photos' camera' = fs')
   \<and> (distinct (map idx photos') \<longrightarrow>
        length (filter (\<lambda>p. focusId fs' = Some (int (idx p))) photos') \<le> 1)
   \<and> (\<not> active fs'' \<longrightarrow> focusId (focusTick fs'' photos' camera') = None)"
proof (intro conjI impI)
  assume a: "active fs \<and> focusId fs = None \<and> photos \<noteq> []"
  then obtain p where p: "p \<in> set photos"
    "focusTick fs photos (Some camPos) = fs\<lparr>focusId := Some (int (idx p))\<rparr>"
    "\<forall>q \<in> set photos. distanceTo (worldPos p) camPos \<le> distanceTo (worldPos q) camPos"
    using focusTick_selects [of fs photos camPos] by blast
  have "focusTicks (fs\<lparr>focusId := Some (int (idx p))\<rparr>) ticks = fs\<lparr>focusId := Some (int (idx p))\<rparr>"
    using a by (intro focusTicks_hold) simp_all
  with p show "\<exists>p \<in> set photos.
          focusTick fs photos (Some camPos) = fs\<lparr>focusId := Some (int (idx p))\<rparr>
          \<and> (\<forall>q \<in> set photos. distanceTo (worldPos p) camPos \<le> distanceTo (worldPos q) camPos)
          \<and> focusTicks (focusTick fs photos (Some camPos)) ticks
              = fs\<lparr>focusId := Some (int (idx p))\<rparr>"
    by auto
next
  show "focusTick fs' photos' camera' = fs'" if "active fs' \<and> focusId fs' = Some k"
    using that focusTick_holds by blast
  show "length (filter (\<lambda>p. focusId fs' = Some (int (idx p))) photos') \<le> 1"
    if "distinct (map idx photos')"
    using that by (rule one_focused_slot)
  show "focusId (focusTick fs'' photos' camera') = None" if "\<not> active fs''"
    using that by (simp add: focusTick_clears)
qed

lemma samplePhotos_focus:
  "focusTick \<lparr>active = True, focusId = None\<rparr> samplePhotos (Some cameraHome)
   = \<lparr>active = True, focusId = Some 1\<rparr>"
  by (simp add: focusTick_def samplePhotos_def cameraHome_def distanceTo_def vec_def Let_def)

theorem focus_selects_nearest_once_witness:
  "samplePhotos \<noteq> []
   \<and> focusTick \<lparr>active = True, focusId = None\<rparr> samplePhotos (Some cameraHome)
       = \<lparr>active = True, focusId = Some 1\<rparr>
   \<and> focusTicks (focusTick \<lparr>active = True, focusId = None\<rparr> samplePhotos (Some cameraHome))
         [(samplePhotos, Some cameraHome), ([], None)]
       = \<lparr>active = True, focusId = Some 1\<rparr>
   \<and> focusTick \<lparr>active = True, focusId = Some 1\<rparr> [] None = \<lparr>active = True, focusId = Some 1\<rparr>
   \<and> length (filter (\<lambda>p. focusId \<lparr>active = True, focusId = Some 1\<rparr> = Some (int (idx p)))
         samplePhotos) \<le> 1
   \<and> focusId (focusTick \<lparr>active = False, focusId = Some 1\<rparr> [] None) = None"
proof -
  have d: "distinct (map idx samplePhotos)" and n: "samplePhotos \<noteq> []"
    by (simp_all add: samplePhotos_def)
  show ?thesis
    using focus_selects_nearest_once [of "\<lparr>active = True, focusId = None\<rparr>" samplePhotos
        cameraHome "[(samplePhotos, Some cameraHome), ([], None)]"
        "\<lparr>active = True, focusId = Some 1\<rparr>" 1 "[]" None
        "\<lparr>active = False, focusId = Some 1\<rparr>"]
      focus_selects_nearest_once [of "\<lparr>active = True, focusId = None\<rparr>" samplePhotos
        cameraHome "[(samplePhotos, Some cameraHome), ([], None)]"
        "\<lparr>active = True, focusId = Some 1\<rparr>" 1 samplePhotos None
        "\<lparr>active = False, focusId = Some 1\<rparr>"]
      d n samplePhotos_focus
    by auto
qed

section \<open>Reversal of the bloom material substitution\<close>

lemma traverse_Cons:
  "traverse cb m (ob # rest)
   = (fst (traverse cb (fst (cb m ob)) rest),
      snd (cb m ob) # snd (traverse cb (fst (cb m ob)) rest))"
  by (simp split: prod.splits)

lemma darken_hit:
  "darkened ob \<Longrightarrow> darken m ob = (m(uuid ob \<mapsto> material ob), ob\<lparr>material := DarkMaterial\<rparr>)"
  by (simp add: darken_def darkened_def)

lemma darken_miss: "\<not> darkened ob \<Longrightarrow> darken m ob = (m, ob)"
  by (auto simp: darken_def darkened_def)

lemma restore_hit:
  "m (uuid ob) = Some original \<Longrightarrow>
   restore m ob = (m(uuid ob := None), ob\<lparr>material := original\<rparr>)"
  by (simp add: restore_def materialsLookup_def)

lemma restore_miss:
  "m (uuid ob) = None \<Longrightarrow> uuid ob \<notin> set objectPrototypeKeys \<Longrightarrow> restore m ob = (m, ob)"
  by (simp add: restore_def materialsLookup_def)

lemma restore_inherited:
  "m (uuid ob) = None \<Longrightarrow> uuid ob \<in> set objectPrototypeKeys \<Longrightarrow>
   restore m ob = (m, ob\<lparr>material := PrototypeMember (uuid ob)\<rparr>)"
  using fun_upd_idem [of m "uuid ob" None] by (simp add: restore_def materialsLookup_def)

text \<open>An entry under a key that no object of the list carries passes through the darkening.\<close>

lemma traverse_darken_other_key:
  "k \<notin> uuid ` set scene \<Longrightarrow>
   traverse darken (m(k \<mapsto> v)) scene
   = ((fst (traverse darken m scene))(k \<mapsto> v), snd (traverse darken m scene))"
proof (induction scene arbitrary: m)
  case Nil
  then show ?case by simp
next
  case (Cons ob scene)
  have k: "k \<noteq> uuid ob" "k \<notin> uuid ` set scene"
    using Cons.prems by auto
  show ?case
  proof (cases "darkened ob")
    case True
    let ?m' = "m(uuid ob \<mapsto> material ob)" and ?ob' = "ob\<lparr>material := DarkMaterial\<rparr>"
    have sw: "(m(k \<mapsto> v))(uuid ob \<mapsto> material ob) = ?m'(k \<mapsto> v)"
      using k(1) by (simp add: fun_upd_twist)
    have "traverse darken (m(k \<mapsto> v)) (ob # scene)
          = (fst (traverse darken (?m'(k \<mapsto> v)) scene),
             ?ob' # snd (traverse darken (?m'(k \<mapsto> v)) scene))"
      by (simp only: traverse_Cons darken_hit [OF True] fst_conv snd_conv sw)
    also have "\<dots> = ((fst (traverse darken ?m' scene))(k \<mapsto> v),
                      ?ob' # snd (traverse darken ?m' scene))"
      by (simp only: Cons.IH [OF k(2)] fst_conv snd_conv)
    also have "\<dots> = ((fst (traverse darken m (ob # scene)))(k \<mapsto> v),
                      snd (traverse darken m (ob # scene)))"
      by (simp only: traverse_Cons darken_hit [OF True] fst_conv snd_conv)
    finally show ?thesis .
  next
    case False
    have "traverse darken (m(k \<mapsto> v)) (ob # scene)
          = (fst (traverse darken (m(k \<mapsto> v)) scene),
             ob # snd (traverse darken (m(k \<mapsto> v)) scene))"
      by (simp only: traverse_Cons darken_miss [OF False] fst_conv snd_conv)
    also have "\<dots> = ((fst (traverse darken m scene))(k \<mapsto> v),
                      ob # snd (traverse darken m scene))"
      by (simp only: Cons.IH [OF k(2)] fst_conv snd_conv)
    also have "\<dots> = ((fst (traverse darken m (ob # scene)))(k \<mapsto> v),
                      snd (traverse darken m (ob # scene)))"
      by (simp only: traverse_Cons darken_miss [OF False] fst_conv snd_conv)
    finally show ?thesis .
  qed
qed

lemma traverse_darken_keeps:
  "k \<notin> uuid ` set scene \<Longrightarrow> fst (traverse darken m scene) k = m k"
proof (induction scene arbitrary: m)
  case Nil
  then show ?case by simp
next
  case (Cons ob scene)
  have k: "k \<noteq> uuid ob" "k \<notin> uuid ` set scene"
    using Cons.prems by auto
  show ?case
  proof (cases "darkened ob")
    case True
    have "fst (traverse darken m (ob # scene)) k
          = fst (traverse darken (m(uuid ob \<mapsto> material ob)) scene) k"
      by (simp only: traverse_Cons darken_hit [OF True] fst_conv)
    also have "\<dots> = (m(uuid ob \<mapsto> material ob)) k"
      by (rule Cons.IH [OF k(2)])
    also have "\<dots> = m k"
      using k(1) by simp
    finally show ?thesis .
  next
    case False
    have "fst (traverse darken m (ob # scene)) k = fst (traverse darken m scene) k"
      by (simp only: traverse_Cons darken_miss [OF False] fst_conv)
    also have "\<dots> = m k"
      by (rule Cons.IH [OF k(2)])
    finally show ?thesis .
  qed
qed

lemma darken_then_restore:
  assumes "distinct (map uuid scene)"
    "\<forall>ob \<in> set scene. m (uuid ob) = None \<and> uuid ob \<notin> set objectPrototypeKeys"
  shows "traverse restore (fst (traverse darken m scene)) (snd (traverse darken m scene))
         = (m, scene)"
  using assms
proof (induction scene arbitrary: m)
  case Nil
  then show ?case by simp
next
  case (Cons ob scene)
  have fresh: "uuid ob \<notin> uuid ` set scene" and dist: "distinct (map uuid scene)"
    using Cons.prems(1) by auto
  have absent: "m (uuid ob) = None" and plain: "uuid ob \<notin> set objectPrototypeKeys"
    and others: "\<forall>ob' \<in> set scene. m (uuid ob') = None \<and> uuid ob' \<notin> set objectPrototypeKeys"
    using Cons.prems(2) by auto
  define m1 where "m1 = fst (traverse darken m scene)"
  define s1 where "s1 = snd (traverse darken m scene)"
  have ih: "traverse restore m1 s1 = (m, scene)"
    unfolding m1_def s1_def using dist others by (rule Cons.IH)
  have m1k: "m1 (uuid ob) = None"
    unfolding m1_def using traverse_darken_keeps [OF fresh] absent by simp
  show ?case
  proof (cases "darkened ob")
    case True
    let ?ob' = "ob\<lparr>material := DarkMaterial\<rparr>"
    have d: "traverse darken m (ob # scene) = (m1(uuid ob \<mapsto> material ob), ?ob' # s1)"
      by (simp only: traverse_Cons darken_hit [OF True] fst_conv snd_conv
            traverse_darken_other_key [OF fresh] m1_def s1_def)
    have r: "restore (m1(uuid ob \<mapsto> material ob)) ?ob' = (m1, ob)"
      using restore_hit [of "m1(uuid ob \<mapsto> material ob)" ?ob' "material ob"]
        fun_upd_idem [of m1 "uuid ob" None] m1k
      by simp
    have "traverse restore (m1(uuid ob \<mapsto> material ob)) (?ob' # s1)
          = (fst (traverse restore m1 s1), ob # snd (traverse restore m1 s1))"
      by (simp only: traverse_Cons r fst_conv snd_conv)
    also have "\<dots> = (m, ob # scene)"
      by (simp only: ih fst_conv snd_conv)
    finally show ?thesis
      by (simp only: d fst_conv snd_conv)
  next
    case False
    have d: "traverse darken m (ob # scene) = (m1, ob # s1)"
      by (simp only: traverse_Cons darken_miss [OF False] fst_conv snd_conv m1_def s1_def)
    have "traverse restore m1 (ob # s1)
          = (fst (traverse restore m1 s1), ob # snd (traverse restore m1 s1))"
      by (simp only: traverse_Cons restore_miss [of m1 ob, OF m1k plain] fst_conv snd_conv)
    also have "\<dots> = (m, ob # scene)"
      by (simp only: ih fst_conv snd_conv)
    finally show ?thesis
      by (simp only: d fst_conv snd_conv)
  qed
qed

lemma traverse_darken_objects:
  "map material (snd (traverse darken m scene))
   = map (\<lambda>ob. if darkened ob then DarkMaterial else material ob) scene"
proof (induction scene arbitrary: m)
  case Nil
  then show ?case by simp
next
  case (Cons ob scene)
  have "map material (snd (traverse darken m (ob # scene)))
        = material (snd (darken m ob))
          # map material (snd (traverse darken (fst (darken m ob)) scene))"
    by (simp only: traverse_Cons snd_conv list.map)
  also have "\<dots> = material (snd (darken m ob))
          # map (\<lambda>ob. if darkened ob then DarkMaterial else material ob) scene"
    by (simp only: Cons.IH)
  also have "material (snd (darken m ob)) = (if darkened ob then DarkMaterial else material ob)"
    by (simp add: darken_def darkened_def)
  finally show ?case by simp
qed

lemma renderFrame_fields:
  "bloomPassMaterials (renderFrame m scene) = map material (snd (traverse darken m scene))"
  "finalPassMaterials (renderFrame m scene)
   = map material (snd (traverse restore (fst (traverse darken m scene))
                          (snd (traverse darken m scene))))"
  "sceneAfter (renderFrame m scene)
   = snd (traverse restore (fst (traverse darken m scene)) (snd (traverse darken m scene)))"
  "materialsAfter (renderFrame m scene)
   = fst (traverse restore (fst (traverse darken m scene)) (snd (traverse darken m scene)))"
  by (simp_all add: renderFrame_def Let_def split: prod.splits)

lemma sampleScene_layers:
  "layersTest 1 bloomLayerMask = False" "layersTest 3 bloomLayerMask = True"
  by (simp_all add: layersTest_def bloomLayerMask_def BLOOM_LAYER_def)

text \<open>
  Claim C9 (amended). \<^verbatim>\<open>darken\<close> substitutes the dark material on the meshes that are not
  on the bloom layer and on nothing else: an object that is not a mesh, such as the
  \<^verbatim>\<open>Points\<close> particle field, keeps its material through the bloom render whether or not
  it is on the bloom layer. For a scene whose objects have distinct uuids, none of them
  the name of a member of \<^verbatim>\<open>Object.prototype\<close>, and an empty \<^verbatim>\<open>materials\<close> dictionary (as
  it is created, and as such a frame leaves it), the darken traversal followed by the
  restore traversal gives back the scene unchanged, every material included, and leaves
  the dictionary empty. The final composer therefore finds the original material on
  every object, while the bloom composer found the dark material on exactly the meshes
  that are not on the bloom layer and the original material on every other object.
\<close>

theorem bloom_substitution_reversed_for_meshes:
  assumes "distinct (map uuid scene)"
    and "\<forall>ob \<in> set scene. uuid ob \<notin> set objectPrototypeKeys"
  shows "sceneAfter (renderFrame Map.empty scene) = scene
       \<and> materialsAfter (renderFrame Map.empty scene) = Map.empty
       \<and> finalPassMaterials (renderFrame Map.empty scene) = map material scene
       \<and> bloomPassMaterials (renderFrame Map.empty scene)
           = map (\<lambda>ob. if isMesh ob \<and> \<not> layersTest (layersMask ob) bloomLayerMask
                       then DarkMaterial else material ob) scene"
proof -
  have r: "traverse restore (fst (traverse darken Map.empty scene))
             (snd (traverse darken Map.empty scene)) = (Map.empty, scene)"
    using assms by (intro darken_then_restore) simp_all
  show ?thesis
    unfolding renderFrame_fields r traverse_darken_objects darkened_def by simp
qed

theorem bloom_substitution_reversed_for_meshes_witness:
  "distinct (map uuid sampleScene)
   \<and> set (map uuid sampleScene) \<inter> set objectPrototypeKeys = {}
   \<and> bloomPassMaterials (renderFrame Map.empty sampleScene)
       = [DarkMaterial, SingleMaterial 2, SingleMaterial 3]
   \<and> finalPassMaterials (renderFrame Map.empty sampleScene)
       = [SingleMaterial 1, SingleMaterial 2, SingleMaterial 3]
   \<and> sceneAfter (renderFrame Map.empty sampleScene) = sampleScene
   \<and> materialsAfter (renderFrame Map.empty sampleScene) = Map.empty"
proof -
  have d: "distinct (map uuid sampleScene)"
    by (simp add: sampleScene_def sampleBody_def)
  have p: "\<forall>ob \<in> set sampleScene. uuid ob \<notin> set objectPrototypeKeys"
    by (simp add: sampleScene_def sampleBody_def objectPrototypeKeys_def)
  have q: "set (map uuid sampleScene) \<inter> set objectPrototypeKeys = {}"
    using p by auto
  show ?thesis
    using bloom_substitution_reversed_for_meshes [OF d p] d q
    by (simp add: sampleScene_def sampleBody_def sampleScene_layers)
qed

text \<open>
  Two frames on which the claim as first stated fails. The particle field is not on the
  bloom layer and is rendered by the bloom composer with its own material, not the dark
  one. And were its uuid \<^verbatim>\<open>constructor\<close>, \<^verbatim>\<open>restore\<close> would find the inherited member under
  that name in the empty dictionary and assign it as the material, so that the final
  composer would not find the original material.
\<close>

theorem bloom_points_and_inherited_key_counterexample:
  "\<not> layersTest (layersMask sampleBody) bloomLayerMask
   \<and> darken Map.empty sampleBody = (Map.empty, sampleBody)
   \<and> bloomPassMaterials (renderFrame Map.empty [sampleBody]) = [SingleMaterial 3]
   \<and> bloomPassMaterials (renderFrame Map.empty [sampleBody]) \<noteq> [DarkMaterial]
   \<and> distinct (map uuid [constructorNamedBody])
   \<and> material constructorNamedBody = SingleMaterial 3
   \<and> finalPassMaterials (renderFrame Map.empty [constructorNamedBody])
       = [PrototypeMember ''constructor'']
   \<and> sceneAfter (renderFrame Map.empty [constructorNamedBody]) \<noteq> [constructorNamedBody]"
proof -
  have l: "\<not> layersTest (layersMask sampleBody) bloomLayerMask"
    by (simp add: sampleBody_def sampleScene_layers)
  have nd: "\<not> darkened sampleBody" "\<not> darkened constructorNamedBody"
    by (simp_all add: darkened_def sampleBody_def constructorNamedBody_def)
  have d: "darken Map.empty sampleBody = (Map.empty, sampleBody)"
    by (rule darken_miss [OF nd(1)])
  have d': "darken Map.empty constructorNamedBody = (Map.empty, constructorNamedBody)"
    by (rule darken_miss [OF nd(2)])
  have r: "restore Map.empty constructorNamedBody
           = (Map.empty, constructorNamedBody\<lparr>material := PrototypeMember ''constructor''\<rparr>)"
    using restore_inherited [of Map.empty constructorNamedBody]
    by (simp add: constructorNamedBody_def sampleBody_def objectPrototypeKeys_def)
  have td: "traverse darken Map.empty [sampleBody] = (Map.empty, [sampleBody])"
    by (simp only: traverse_Cons traverse.simps d fst_conv snd_conv)
  have td': "traverse darken Map.empty [constructorNamedBody]
             = (Map.empty, [constructorNamedBody])"
    by (simp only: traverse_Cons traverse.simps d' fst_conv snd_conv)
  have tr: "traverse restore Map.empty [constructorNamedBody]
            = (Map.empty, [constructorNamedBody\<lparr>material := PrototypeMember ''constructor''\<rparr>])"
    by (simp only: traverse_Cons traverse.simps r fst_conv snd_conv)
  have b: "bloomPassMaterials (renderFrame Map.empty [sampleBody]) = [SingleMaterial 3]"
    unfolding renderFrame_fields(1) td by (simp add: sampleBody_def)
  have f: "finalPassMaterials (renderFrame Map.empty [constructorNamedBody])
           = [PrototypeMember ''constructor'']"
    unfolding renderFrame_fields(2) td' fst_conv snd_conv tr by simp
  have s: "sceneAfter (renderFrame Map.empty [constructorNamedBody])
           = [constructorNamedBody\<lparr>material := PrototypeMember ''constructor''\<rparr>]"
    unfolding renderFrame_fields(3) td' fst_conv snd_conv tr by simp
  have s': "sceneAfter (renderFrame Map.empty [constructorNamedBody]) \<noteq> [constructorNamedBody]"
    unfolding s by (simp add: constructorNamedBody_def sampleBody_def)
  show ?thesis
    using l d b f s' by (simp add: constructorNamedBody_def sampleBody_def)
qed

end
